theory Spec2Isabelle
  imports Complex_Main "HOL-Library.Sublist"
begin

section \<open>JavaScript strings and values\<close>

text \<open>
  A JavaScript string is modelled as a \<^typ>\<open>string\<close>: a list of code units, here the
  code units below 256. \<open>isWhitespace\<close> is the white space that \<open>String.prototype.trim\<close>
  and the regular expression class \<open>\s\<close> recognise in that range, \<open>toLowerCase\<close> is
  \<open>String.prototype.toLowerCase\<close> there, and \<open>text.includes(term)\<close> is
  \<^term>\<open>sublist term text\<close> (a contiguous occurrence).
\<close>

definition isWhitespace :: "char \<Rightarrow> bool" where
  "isWhitespace c = (of_char c \<in> {9, 10, 11, 12, 13, 32, 160 :: nat})"

definition lowerChar :: "char \<Rightarrow> char" where
  "lowerChar c =
     (let n = (of_char c :: nat)
      in if (65 \<le> n \<and> n \<le> 90) \<or> (192 \<le> n \<and> n \<le> 222 \<and> n \<noteq> 215)
         then char_of (n + 32) else c)"

definition toLowerCase :: "string \<Rightarrow> string" where
  "toLowerCase s = map lowerChar s"

definition trim :: "string \<Rightarrow> string" where
  "trim s = rev (dropWhile isWhitespace (rev (dropWhile isWhitespace s)))"

text \<open>
  \<open>new Set(xs)\<close> followed by \<open>Array.from\<close>, and the values of a \<open>Map\<close>: the elements
  in the order of their first insertion.
\<close>

definition insertionOrder :: "'a list \<Rightarrow> 'a list" where
  "insertionOrder xs = foldl (\<lambda>acc x. if x \<in> set acc then acc else acc @ [x]) [] xs"

text \<open>
  The values that reach the rule engine as \<open>unknown\<close>: rule sets are read from a JSON
  file or arrive over IPC. A number is a finite value, an infinity or NaN; an object is
  the list of its own properties, and a property that is missing reads as
  \<open>undefined\<close>.
\<close>

datatype jsnum = NaN | PosInfinity | NegInfinity | Finite rat

datatype jsval =
    JUndefined
  | JNull
  | JBool bool
  | JNum jsnum
  | JStr string
  | JArr "jsval list"
  | JObj "(string \<times> jsval) list"

type_synonym jsobj = "(string \<times> jsval) list"

definition getProp :: "jsobj \<Rightarrow> string \<Rightarrow> jsval" where
  "getProp obj key = (case map_of obj key of None \<Rightarrow> JUndefined | Some v \<Rightarrow> v)"


section \<open>The rule engine (filterRules.ts)\<close>

text \<open>
  \<open>SourceRules\<close> is the object as it arrives (a \<^typ>\<open>jsobj\<close>; \<open>None\<close> for \<open>null\<close> and
  \<open>undefined\<close>), \<open>NormalizedSourceRules\<close> the record below. \<open>RuleApplicableArticle\<close> has
  four optional string fields; its field names carry the prefix \<open>ra_\<close>, and the type
  parameter \<open>T extends RuleApplicableArticle\<close> is the extension of the record.
\<close>

record NormalizedSourceRules =
  titleIncludes :: "string list"
  titleExcludes :: "string list"
  urlIncludes :: "string list"
  urlExcludes :: "string list"
  descriptionRequired :: bool
  publishedAtRequired :: bool
  skipTopCount :: nat

record RuleApplicableArticle =
  ra_title :: "string option"
  ra_url :: "string option"
  ra_description :: "string option"
  ra_publishedAt :: "string option"

record 'a SourceRuleApplyResult =
  keptArticles :: "'a list"
  skippedTopCount :: nat
  ruleFilteredCount :: nat
  filteredOutCount :: nat
  appliedRules :: "jsobj option"

definition normalizeTermList :: "jsval \<Rightarrow> string list" where
  "normalizeTermList v =
     (case v of
        JArr items \<Rightarrow>
          insertionOrder
            (filter (\<lambda>item. length item > 0)
               (map (\<lambda>item. case item of JStr s \<Rightarrow> trim s | _ \<Rightarrow> []) items))
      | _ \<Rightarrow> [])"

definition normalizeBoolean :: "jsval \<Rightarrow> bool" where
  "normalizeBoolean v = (v = JBool True)"

definition normalizeSkipTopCount :: "jsval \<Rightarrow> nat" where
  "normalizeSkipTopCount v =
     (case v of
        JNum (Finite q) \<Rightarrow> (let rounded = \<lfloor>q\<rfloor> in if rounded > 0 then nat rounded else 0)
      | _ \<Rightarrow> 0)"

definition normalizeSourceRules :: "jsobj option \<Rightarrow> NormalizedSourceRules" where
  "normalizeSourceRules rules =
     (let input = (case rules of None \<Rightarrow> [] | Some r \<Rightarrow> r)
      in \<lparr> titleIncludes = normalizeTermList (getProp input ''titleIncludes''),
           titleExcludes = normalizeTermList (getProp input ''titleExcludes''),
           urlIncludes = normalizeTermList (getProp input ''urlIncludes''),
           urlExcludes = normalizeTermList (getProp input ''urlExcludes''),
           descriptionRequired = normalizeBoolean (getProp input ''descriptionRequired''),
           publishedAtRequired = normalizeBoolean (getProp input ''publishedAtRequired''),
           skipTopCount = normalizeSkipTopCount (getProp input ''skipTopCount'') \<rparr>)"

definition hasActiveRules :: "NormalizedSourceRules \<Rightarrow> bool" where
  "hasActiveRules rules =
     (length (titleIncludes rules) > 0 \<or>
      length (titleExcludes rules) > 0 \<or>
      length (urlIncludes rules) > 0 \<or>
      length (urlExcludes rules) > 0 \<or>
      descriptionRequired rules \<or>
      publishedAtRequired rules \<or>
      skipTopCount rules > 0)"

definition compactSourceRules :: "NormalizedSourceRules \<Rightarrow> jsobj option" where
  "compactSourceRules rules =
     (let compact =
        (if length (titleIncludes rules) > 0
         then [(''titleIncludes'', JArr (map JStr (titleIncludes rules)))] else []) @
        (if length (titleExcludes rules) > 0
         then [(''titleExcludes'', JArr (map JStr (titleExcludes rules)))] else []) @
        (if length (urlIncludes rules) > 0
         then [(''urlIncludes'', JArr (map JStr (urlIncludes rules)))] else []) @
        (if length (urlExcludes rules) > 0
         then [(''urlExcludes'', JArr (map JStr (urlExcludes rules)))] else []) @
        (if descriptionRequired rules then [(''descriptionRequired'', JBool True)] else []) @
        (if publishedAtRequired rules then [(''publishedAtRequired'', JBool True)] else []) @
        (if skipTopCount rules > 0
         then [(''skipTopCount'', JNum (Finite (of_nat (skipTopCount rules))))] else [])
      in if length compact > 0 then Some compact else None)"

definition includesAll :: "string \<Rightarrow> string list \<Rightarrow> bool" where
  "includesAll text terms =
     (if length terms = 0 then True
      else let lowerText = toLowerCase text
           in list_all (\<lambda>term. sublist (toLowerCase term) lowerText) terms)"

definition includesAny :: "string \<Rightarrow> string list \<Rightarrow> bool" where
  "includesAny text terms =
     (if length terms = 0 then False
      else let lowerText = toLowerCase text
           in list_ex (\<lambda>term. sublist (toLowerCase term) lowerText) terms)"

definition isPresent :: "string option \<Rightarrow> bool" where
  "isPresent v = (trim (case v of None \<Rightarrow> [] | Some s \<Rightarrow> s) \<noteq> [])"

definition matchesArticle ::
  "'a RuleApplicableArticle_scheme \<Rightarrow> NormalizedSourceRules \<Rightarrow> bool" where
  "matchesArticle article rules =
     (let title = trim (case ra_title article of None \<Rightarrow> [] | Some s \<Rightarrow> s);
          url = trim (case ra_url article of None \<Rightarrow> [] | Some s \<Rightarrow> s)
      in if \<not> includesAll title (titleIncludes rules) then False
         else if includesAny title (titleExcludes rules) then False
         else if \<not> includesAll url (urlIncludes rules) then False
         else if includesAny url (urlExcludes rules) then False
         else if descriptionRequired rules \<and> \<not> isPresent (ra_description article) then False
         else if publishedAtRequired rules \<and> \<not> isPresent (ra_publishedAt article) then False
         else True)"

definition applySourceRules ::
  "'a RuleApplicableArticle_scheme list \<Rightarrow> jsobj option \<Rightarrow>
   'a RuleApplicableArticle_scheme SourceRuleApplyResult" where
  "applySourceRules articles rulesInput =
     (let rules = normalizeSourceRules rulesInput;
          hasRules = hasActiveRules rules
      in if \<not> hasRules
         then \<lparr> keptArticles = articles, skippedTopCount = 0, ruleFilteredCount = 0,
                filteredOutCount = 0, appliedRules = None \<rparr>
         else
           let skipped = min (skipTopCount rules) (length articles);
               afterSkip = drop skipped articles;
               kept = filter (\<lambda>article. matchesArticle article rules) afterSkip;
               ruleFiltered = length afterSkip - length kept;
               filteredOut = skipped + ruleFiltered
           in \<lparr> keptArticles = kept, skippedTopCount = skipped,
                ruleFilteredCount = ruleFiltered, filteredOutCount = filteredOut,
                appliedRules = compactSourceRules rules \<rparr>)"


section \<open>The scraper (scraper.ts)\<close>

subsection \<open>Data\<close>

definition MAX_ARTICLES :: nat where
  "MAX_ARTICLES = 50"

record FeedArticle =
  title :: string
  url :: string
  description :: "string option"
  publishedAt :: "string option"
  author :: "string option"

text \<open>The field \<open>method\<close> of \<open>FeedResult\<close> is \<open>usedMethod\<close> here.\<close>

datatype ExtractionMethod = RssAutoDetect | Heuristic

record FeedResult =
  sourceUrl :: string
  feedTitle :: string
  feedDescription :: string
  articles :: "FeedArticle list"
  rssXml :: string
  usedMethod :: ExtractionMethod

text \<open>\<open>NormalizedFeed\<close>; its fields carry the prefix \<open>nf_\<close>.\<close>

record NormalizedFeed =
  nf_title :: string
  nf_description :: string
  nf_articles :: "FeedArticle list"

text \<open>
  Every failure of the scraper is a thrown \<open>Error\<close>; the constructors name the throw
  sites. \<open>InvalidUrlError\<close> and \<open>UnsupportedProtocolError\<close> are the two checks at the
  head of \<open>extractFeed\<close>, \<open>FetchError\<close> the three ways \<open>fetchHtml\<close> fails,
  \<open>ExtractionError\<close> the throw of \<open>extractHeuristically\<close>, and \<open>TypeError\<close> what
  \<open>new URL\<close> throws outside a \<open>try\<close>.
\<close>

datatype FetchFailure = RequestFailed | NotHtml | NoTextData

datatype Error =
    InvalidUrlError
  | UnsupportedProtocolError
  | FetchError FetchFailure
  | ExtractionError
  | TypeError

subsection \<open>The collaborators\<close>

text \<open>
  The libraries the scraper calls are parameters of the model, gathered in the record
  \<open>World\<close>: the URL parser, \<open>Date\<close>, the HTTP client, the HTML parser with its
  selector queries, the feed extractor and the feed serialiser.
\<close>

record Url =
  protocol :: string
  hostname :: string
  pathname :: string

record HttpResponse =
  contentTypeHeader :: "string option"
  responseData :: "string option"

text \<open>
  What the code reads from an element: the results of the selector queries that
  \<open>extractDateFromElement\<close>, \<open>extractAuthorFromElement\<close> and the description lookup make
  below it. An attribute that is missing is \<open>None\<close>; \<open>.text()\<close> is always a string.
\<close>

record ElementQueries =
  summaryText :: string
  timeDatetimeAttr :: "string option"
  anyDatetimeAttr :: "string option"
  timeText :: string
  dateClassText :: string
  relAuthorText :: string
  authorClassText :: string

record ContainerElement = ElementQueries +
  linkHref :: "string option"
  linkText :: string
  headingText :: string

record AnchorElement =
  anchorHref :: "string option"
  anchorText :: string
  closestContainer :: ElementQueries

record LinkElement =
  relAttr :: "string option"
  typeAttr :: "string option"
  hrefAttr :: "string option"

record Dom =
  linkElements :: "LinkElement list"
  ogSiteName :: "string option"
  metaDescription :: "string option"
  titleText :: string
  containerElements :: "ContainerElement list"
  anchorElements :: "AnchorElement list"

text \<open>
  What the feed extractor hands back. The code reads the fields through type assertions
  (\<open>candidate.title as string | undefined\<close>); the model takes them at that type. An
  author value is falsy, a string, an object (with its \<open>name\<close> when that is a string) or
  something else.
\<close>

datatype AuthorValue =
    AuthorFalsy
  | AuthorString string
  | AuthorObject "string option"
  | AuthorOther

record EntryFields =
  e_title :: "string option"
  e_summary :: "string option"
  e_contentSnippet :: "string option"
  e_link :: "string option"
  e_url :: "string option"
  e_id :: "string option"
  e_description :: "string option"
  e_content :: "string option"
  e_published :: "string option"
  e_pubDate :: "string option"
  e_isoDate :: "string option"
  e_publishedAt :: "string option"
  e_author :: AuthorValue
  e_authors :: "AuthorValue list option"

datatype RawEntry = NonObjectEntry | ObjectEntry EntryFields

record ExtractedFeed =
  x_title :: "string option"
  x_description :: "string option"
  x_entries :: "RawEntry list option"
  x_items :: "RawEntry list option"

datatype ExtractorOutcome =
    ExtractorThrows
  | ExtractorNonObject
  | ExtractorObject ExtractedFeed

record FeedExtractorLib =
  lib_extract :: "(string \<Rightarrow> ExtractorOutcome) option"
  lib_extractFromUrl :: "(string \<Rightarrow> ExtractorOutcome) option"
  lib_default :: "(string \<Rightarrow> ExtractorOutcome) option"

record Author =
  name :: string

record FeedItem =
  itemTitle :: string
  itemId :: string
  itemLink :: string
  itemDescription :: string
  itemDate :: int
  itemAuthor :: "Author list option"

record Feed =
  optTitle :: string
  optDescription :: string
  optId :: string
  optLink :: string
  optLanguage :: string
  optUpdated :: int
  optGenerator :: string
  optCopyright :: string
  feedItems :: "FeedItem list"

text \<open>
  \<open>parseUrl s\<close> is \<open>new URL(s)\<close> (\<open>None\<close> when it throws), \<open>resolveUrl c b\<close> is
  \<open>new URL(c, b).toString()\<close>, \<open>parseDate s\<close> the time value of \<open>new Date(s)\<close> (\<open>None\<close>
  for an invalid date), \<open>now n\<close> the time value of the \<open>n\<close>-th \<open>new Date()\<close> of a call,
  \<open>httpGet\<close> is \<open>axios.get\<close> (\<open>None\<close> when it rejects), \<open>load\<close> is \<open>cheerio.load\<close>
  with the queries the code makes, \<open>rss2\<close> the serialiser of the \<open>feed\<close> package.
\<close>

record World =
  parseUrl :: "string \<Rightarrow> Url option"
  resolveUrl :: "string \<Rightarrow> string \<Rightarrow> string option"
  parseDate :: "string \<Rightarrow> int option"
  toISOString :: "int \<Rightarrow> string"
  fullYear :: "int \<Rightarrow> string"
  now :: "nat \<Rightarrow> int"
  httpGet :: "string \<Rightarrow> HttpResponse option"
  load :: "string \<Rightarrow> Dom"
  feedExtractorLib :: FeedExtractorLib
  rss2 :: "Feed \<Rightarrow> string"


subsection \<open>Text, URLs and dates\<close>

text \<open>
  \<open>nullish a b\<close> is \<open>a ?? b\<close> and \<open>orElse a b\<close> is \<open>a || b\<close> on strings.
  \<open>collapseWhitespace\<close> is \<open>replace(/\s+/g, " ")\<close>.
\<close>

definition nullish :: "'a option \<Rightarrow> 'a option \<Rightarrow> 'a option" where
  "nullish a b = (case a of None \<Rightarrow> b | Some x \<Rightarrow> Some x)"

definition orElse :: "string \<Rightarrow> string \<Rightarrow> string" where
  "orElse a b = (if a = [] then b else a)"

definition truthy :: "string option \<Rightarrow> string option" where
  "truthy v = (case v of None \<Rightarrow> None | Some s \<Rightarrow> if s = [] then None else Some s)"

function collapseWhitespace :: "string \<Rightarrow> string" where
  "collapseWhitespace [] = []"
| "collapseWhitespace (c # cs) =
     (if isWhitespace c then CHR '' '' # collapseWhitespace (dropWhile isWhitespace cs)
      else c # collapseWhitespace cs)"
  by pat_completeness auto
termination
  by (relation "measure length") (auto simp: length_dropWhile_le less_Suc_eq_le)

definition cleanText :: "string option \<Rightarrow> string" where
  "cleanText v =
     (case truthy v of None \<Rightarrow> [] | Some s \<Rightarrow> trim (collapseWhitespace s))"

definition isHttpUrl :: "World \<Rightarrow> string \<Rightarrow> bool" where
  "isHttpUrl env v =
     (case parseUrl env v of
        None \<Rightarrow> False
      | Some parsed \<Rightarrow> protocol parsed = ''http:'' \<or> protocol parsed = ''https:'')"

definition toAbsoluteUrl :: "World \<Rightarrow> string \<Rightarrow> string option \<Rightarrow> string option" where
  "toAbsoluteUrl env baseUrl candidate =
     (case truthy candidate of None \<Rightarrow> None | Some c \<Rightarrow> resolveUrl env c baseUrl)"

definition normalizeDate :: "World \<Rightarrow> string option \<Rightarrow> string option" where
  "normalizeDate env v =
     (case truthy v of
        None \<Rightarrow> None
      | Some s \<Rightarrow>
          (case parseDate env s of None \<Rightarrow> None | Some t \<Rightarrow> Some (toISOString env t)))"

subsection \<open>Deduplication\<close>

text \<open>
  \<open>byUrl\<close> is the \<open>Map\<close> of the source, as the list of its entries in insertion order.
\<close>

fun uniqueLoop :: "(string \<times> FeedArticle) list \<Rightarrow> FeedArticle list \<Rightarrow> (string \<times> FeedArticle) list" where
  "uniqueLoop byUrl [] = byUrl"
| "uniqueLoop byUrl (article # rest) =
     uniqueLoop
       (if map_of byUrl (url article) = None then byUrl @ [(url article, article)] else byUrl)
       rest"

definition uniqueArticles :: "FeedArticle list \<Rightarrow> FeedArticle list" where
  "uniqueArticles as = take MAX_ARTICLES (map snd (uniqueLoop [] as))"

subsection \<open>Fetching the page\<close>

definition fetchHtml :: "World \<Rightarrow> string \<Rightarrow> Error + string" where
  "fetchHtml env u =
     (case httpGet env u of
        None \<Rightarrow> Inl (FetchError RequestFailed)
      | Some response \<Rightarrow>
          let contentType = (case contentTypeHeader response of None \<Rightarrow> [] | Some h \<Rightarrow> h)
          in if contentType \<noteq> [] \<and>
                \<not> (sublist ''text/html'' (toLowerCase contentType) \<or>
                   sublist ''application/xhtml+xml'' (toLowerCase contentType))
             then Inl (FetchError NotHtml)
             else (case responseData response of
                     None \<Rightarrow> Inl (FetchError NoTextData)
                   | Some d \<Rightarrow> Inr d))"

subsection \<open>Feed discovery\<close>

text \<open>
  The default description is the title followed by a fixed Japanese phrase (\<open>auto-generated
  feed\<close>); \<open>autoFeedSuffix\<close> stands for that literal.
\<close>

definition autoFeedSuffix :: string where
  "autoFeedSuffix = '' (auto-generated feed)''"

definition feedLinkOf :: "World \<Rightarrow> string \<Rightarrow> LinkElement \<Rightarrow> string option" where
  "feedLinkOf env src element =
     (let rel = toLowerCase (case relAttr element of None \<Rightarrow> [] | Some r \<Rightarrow> r);
          type = toLowerCase (case typeAttr element of None \<Rightarrow> [] | Some t \<Rightarrow> t)
      in if \<not> sublist ''alternate'' rel then None
         else if \<not> (sublist ''rss'' (toLowerCase type) \<or> sublist ''atom'' (toLowerCase type) \<or>
                     sublist ''xml'' (toLowerCase type)) then None
         else (case truthy (toAbsoluteUrl env src (hrefAttr element)) of
                 None \<Rightarrow> None
               | Some absoluteUrl \<Rightarrow> if isHttpUrl env absoluteUrl then Some absoluteUrl else None))"

definition detectFeedLinks :: "World \<Rightarrow> Dom \<Rightarrow> string \<Rightarrow> string list" where
  "detectFeedLinks env doc src =
     take 10 (insertionOrder (List.map_filter (feedLinkOf env src) (linkElements doc)))"

definition pickExtractor :: "FeedExtractorLib \<Rightarrow> (string \<Rightarrow> ExtractorOutcome) option" where
  "pickExtractor lib = nullish (lib_extract lib) (nullish (lib_extractFromUrl lib) (lib_default lib))"

definition parseExtractorAuthor :: "AuthorValue \<Rightarrow> string option" where
  "parseExtractorAuthor authorValue =
     (case authorValue of
        AuthorFalsy \<Rightarrow> None
      | AuthorString s \<Rightarrow> truthy (Some (cleanText (Some s)))
      | AuthorObject maybeName \<Rightarrow>
          (case maybeName of None \<Rightarrow> None | Some n \<Rightarrow> truthy (Some (cleanText (Some n))))
      | AuthorOther \<Rightarrow> None)"

definition parseExtractorEntry :: "World \<Rightarrow> RawEntry \<Rightarrow> FeedArticle option" where
  "parseExtractorEntry env entry =
     (case entry of
        NonObjectEntry \<Rightarrow> None
      | ObjectEntry candidate \<Rightarrow>
          let title = cleanText (nullish (e_title candidate)
                         (nullish (e_summary candidate) (e_contentSnippet candidate)));
              urlRaw = nullish (e_link candidate) (nullish (e_url candidate) (e_id candidate))
          in (case truthy urlRaw of
                None \<Rightarrow> None
              | Some u \<Rightarrow>
                  if title = [] \<or> \<not> isHttpUrl env u then None
                  else
                    let description = cleanText (nullish (e_description candidate)
                          (nullish (e_summary candidate)
                             (nullish (e_content candidate) (e_contentSnippet candidate))));
                        publishedAt = normalizeDate env (nullish (e_published candidate)
                          (nullish (e_pubDate candidate)
                             (nullish (e_isoDate candidate) (e_publishedAt candidate))));
                        author0 = parseExtractorAuthor (e_author candidate);
                        author1 =
                          (if author0 = None
                           then (case e_authors candidate of
                                   None \<Rightarrow> author0
                                 | Some authors \<Rightarrow>
                                     (case authors of
                                        [] \<Rightarrow> author0
                                      | first # _ \<Rightarrow> parseExtractorAuthor first))
                           else author0)
                    in Some \<lparr> title = title, url = u, description = truthy (Some description),
                              publishedAt = publishedAt, author = author1 \<rparr>))"

text \<open>
  \<open>rawEntriesOf\<close> and \<open>normalizedEntriesOf\<close> are the first two bindings of the
  \<open>try\<close> block. \<open>tryFeedLink\<close> is the body of the \<open>try\<close> block for one candidate: the feed it returns,
  or \<open>None\<close> when the loop goes on to the next candidate (\<open>continue\<close>, or an exception
  that the \<open>catch\<close> swallows). \<open>tryFeedLinks\<close> is the loop; with its result it returns the
  candidates that were handed to the extractor, in order.
\<close>

definition rawEntriesOf :: "ExtractedFeed \<Rightarrow> RawEntry list" where
  "rawEntriesOf extracted =
     (case x_entries extracted of
        Some es \<Rightarrow> es
      | None \<Rightarrow> (case x_items extracted of Some is \<Rightarrow> is | None \<Rightarrow> []))"

definition normalizedEntriesOf :: "World \<Rightarrow> ExtractedFeed \<Rightarrow> FeedArticle list" where
  "normalizedEntriesOf env extracted =
     uniqueArticles (List.map_filter (parseExtractorEntry env) (rawEntriesOf extracted))"

definition tryFeedLink ::
  "World \<Rightarrow> Dom \<Rightarrow> string \<Rightarrow> (string \<Rightarrow> ExtractorOutcome) \<Rightarrow> string \<Rightarrow> NormalizedFeed option" where
  "tryFeedLink env doc src extractor feedLink =
     (case extractor feedLink of
        ExtractorThrows \<Rightarrow> None
      | ExtractorNonObject \<Rightarrow> None
      | ExtractorObject extracted \<Rightarrow>
          let normalizedEntries = normalizedEntriesOf env extracted
          in if length normalizedEntries = 0 then None
             else
               let t0 = orElse (cleanText (x_title extracted)) (cleanText (ogSiteName doc));
                   t = (if t0 \<noteq> [] then Some t0 else map_option hostname (parseUrl env src))
               in (case t of
                     None \<Rightarrow> None
                   | Some resolvedTitle \<Rightarrow>
                       Some \<lparr> nf_title = resolvedTitle,
                              nf_description =
                                orElse (cleanText (x_description extracted))
                                  (orElse (cleanText (metaDescription doc))
                                     (resolvedTitle @ autoFeedSuffix)),
                              nf_articles = normalizedEntries \<rparr>))"

fun tryFeedLinks ::
  "World \<Rightarrow> Dom \<Rightarrow> string \<Rightarrow> (string \<Rightarrow> ExtractorOutcome) \<Rightarrow> string list \<Rightarrow>
   string list \<times> NormalizedFeed option" where
  "tryFeedLinks env doc src extractor [] = ([], None)"
| "tryFeedLinks env doc src extractor (feedLink # rest) =
     (case tryFeedLink env doc src extractor feedLink of
        Some feed \<Rightarrow> ([feedLink], Some feed)
      | None \<Rightarrow>
          (case tryFeedLinks env doc src extractor rest of
             (probed, r) \<Rightarrow> (feedLink # probed, r)))"

definition tryAutoDetectFeeds ::
  "World \<Rightarrow> string \<Rightarrow> string \<Rightarrow> string list \<times> NormalizedFeed option" where
  "tryAutoDetectFeeds env src html =
     (let doc = load env html;
          feedLinks = detectFeedLinks env doc src
      in (case pickExtractor (feedExtractorLib env) of
            None \<Rightarrow> ([], None)
          | Some extractor \<Rightarrow>
              if length feedLinks = 0 then ([], None)
              else tryFeedLinks env doc src extractor feedLinks))"


subsection \<open>Regular expressions\<close>

text \<open>
  \<open>RegExp.prototype.test\<close> for the patterns of \<open>isLikelyArticleUrl\<close>. The subject is
  the string between a start and an end marker, so that \<open>^\<close> and \<open>$\<close> are atoms;
  \<open>rxTest\<close> looks for a match anywhere, by derivatives; \<open>rxSeq\<close> and \<open>rxAlt\<close> build
  the derivative and drop the branches that cannot match any more.
\<close>

datatype sym = Bos | Ch char | Eos

datatype rx = Zero | One | Atom "sym \<Rightarrow> bool" | Alt rx rx | Seq rx rx | Star rx

fun nullable :: "rx \<Rightarrow> bool" where
  "nullable Zero = False"
| "nullable One = True"
| "nullable (Atom p) = False"
| "nullable (Alt r s) = (nullable r \<or> nullable s)"
| "nullable (Seq r s) = (nullable r \<and> nullable s)"
| "nullable (Star r) = True"

fun rxSeq :: "rx \<Rightarrow> rx \<Rightarrow> rx" where
  "rxSeq Zero s = Zero"
| "rxSeq One s = s"
| "rxSeq r s = Seq r s"

fun rxAlt :: "rx \<Rightarrow> rx \<Rightarrow> rx" where
  "rxAlt Zero s = s"
| "rxAlt r Zero = r"
| "rxAlt r s = Alt r s"

fun deriv :: "sym \<Rightarrow> rx \<Rightarrow> rx" where
  "deriv a Zero = Zero"
| "deriv a One = Zero"
| "deriv a (Atom p) = (if p a then One else Zero)"
| "deriv a (Alt r s) = rxAlt (deriv a r) (deriv a s)"
| "deriv a (Seq r s) =
     (if nullable r then rxAlt (rxSeq (deriv a r) s) (deriv a s) else rxSeq (deriv a r) s)"
| "deriv a (Star r) = rxSeq (deriv a r) (Star r)"

definition rxMatches :: "rx \<Rightarrow> sym list \<Rightarrow> bool" where
  "rxMatches r w = nullable (foldl (\<lambda>q a. deriv a q) r w)"

definition rxAny :: rx where
  "rxAny = Star (Atom (\<lambda>a. True))"

definition rxTest :: "rx \<Rightarrow> string \<Rightarrow> bool" where
  "rxTest r s = rxMatches (Seq rxAny (Seq r rxAny)) (Bos # map Ch s @ [Eos])"

definition rxChar :: "char \<Rightarrow> rx" where
  "rxChar c = Atom (\<lambda>a. a = Ch c)"

definition rxCharI :: "char \<Rightarrow> rx" where
  "rxCharI c = Atom (\<lambda>a. case a of Ch d \<Rightarrow> lowerChar d = lowerChar c | _ \<Rightarrow> False)"

definition rxSeqs :: "rx list \<Rightarrow> rx" where
  "rxSeqs rs = foldr Seq rs One"

definition rxAlts :: "rx list \<Rightarrow> rx" where
  "rxAlts rs = foldr Alt rs Zero"

definition rxLit :: "string \<Rightarrow> rx" where
  "rxLit s = rxSeqs (map rxChar s)"

definition rxLitI :: "string \<Rightarrow> rx" where
  "rxLitI s = rxSeqs (map rxCharI s)"

definition rxDigit :: rx where
  "rxDigit = Atom (\<lambda>a. case a of Ch d \<Rightarrow> 48 \<le> (of_char d :: nat) \<and> (of_char d :: nat) \<le> 57
                        | _ \<Rightarrow> False)"

definition rxOpt :: "rx \<Rightarrow> rx" where
  "rxOpt r = Alt r One"

definition rxRep :: "nat \<Rightarrow> rx \<Rightarrow> rx" where
  "rxRep n r = rxSeqs (replicate n r)"

definition rxBos :: rx where
  "rxBos = Atom (\<lambda>a. a = Bos)"

definition rxEos :: rx where
  "rxEos = Atom (\<lambda>a. a = Eos)"

subsection \<open>The heuristic extractor\<close>

definition extractDateFromElement :: "World \<Rightarrow> 'a ElementQueries_scheme \<Rightarrow> string option" where
  "extractDateFromElement env element =
     (let timeValue = cleanText
            (nullish (timeDatetimeAttr element)
               (nullish (anyDatetimeAttr element)
                  (nullish (Some (timeText element)) (Some (dateClassText element)))))
      in normalizeDate env (truthy (Some timeValue)))"

definition extractAuthorFromElement :: "'a ElementQueries_scheme \<Rightarrow> string option" where
  "extractAuthorFromElement element =
     truthy (Some (cleanText (Some (orElse (relAuthorText element) (authorClassText element)))))"

text \<open>
  \<open>containerArticle\<close> is the body of the callback of \<open>extractFromContainers\<close> after its
  first test: the article it pushes, if any. \<open>containerLoop\<close> is \<open>each\<close>, which stops
  when the callback returns \<open>false\<close>.
\<close>

definition containerArticle :: "World \<Rightarrow> string \<Rightarrow> ContainerElement \<Rightarrow> FeedArticle option" where
  "containerArticle env src container =
     (case truthy (toAbsoluteUrl env src (linkHref container)) of
        None \<Rightarrow> None
      | Some articleUrl \<Rightarrow>
          if \<not> isHttpUrl env articleUrl then None
          else
            let title = orElse (cleanText (Some (headingText container)))
                               (cleanText (Some (linkText container)))
            in if title = [] then None
               else Some \<lparr> title = title, url = articleUrl,
                           description = truthy (Some (cleanText (Some (summaryText container)))),
                           publishedAt = extractDateFromElement env container,
                           author = extractAuthorFromElement container \<rparr>)"

fun containerLoop ::
  "World \<Rightarrow> string \<Rightarrow> FeedArticle list \<Rightarrow> ContainerElement list \<Rightarrow> FeedArticle list" where
  "containerLoop env src candidates [] = candidates"
| "containerLoop env src candidates (node # rest) =
     (if length candidates \<ge> MAX_ARTICLES then candidates
      else containerLoop env src
             (case containerArticle env src node of
                None \<Rightarrow> candidates
              | Some a \<Rightarrow> candidates @ [a])
             rest)"

definition extractFromContainers :: "World \<Rightarrow> Dom \<Rightarrow> string \<Rightarrow> FeedArticle list" where
  "extractFromContainers env doc src =
     uniqueArticles (containerLoop env src [] (containerElements doc))"

definition splitSegments :: "string \<Rightarrow> string list" where
  "splitSegments path =
     filter (\<lambda>seg. seg \<noteq> [])
       (foldr (\<lambda>c acc. if c = CHR ''/'' then [] # acc else (c # hd acc) # tl acc) path [[]])"

definition sectionPattern :: rx where
  "sectionPattern =
     rxSeqs [Alt rxBos (rxChar CHR ''/''),
             rxAlts (map rxLitI [''news'', ''article'', ''articles'', ''post'', ''posts'',
                                 ''entry'', ''entries'', ''blog'', ''topics'']),
             Alt (rxChar CHR ''/'') rxEos]"

definition datePathPattern :: rx where
  "datePathPattern =
     rxSeqs [rxLit ''/20'', rxRep 2 rxDigit, rxChar CHR ''/'',
             rxDigit, rxOpt rxDigit,
             rxOpt (rxSeqs [rxChar CHR ''/'', rxDigit, rxOpt rxDigit]),
             rxChar CHR ''/'']"

definition dashedDatePattern :: rx where
  "dashedDatePattern =
     rxSeqs [rxLit ''/20'', rxRep 2 rxDigit, rxChar CHR ''-'', rxRep 2 rxDigit,
             rxChar CHR ''-'', rxRep 2 rxDigit, rxChar CHR ''/'']"

definition articleIdPattern :: rx where
  "articleIdPattern =
     rxSeqs [Alt (rxChar CHR ''?'') (rxChar CHR ''&''),
             Alt (rxLitI ''p'') (rxLitI ''article_id''),
             rxChar CHR ''='', rxDigit, Star rxDigit]"

definition fileExtensionPattern :: rx where
  "fileExtensionPattern =
     rxSeqs [rxChar CHR ''.'',
             rxAlts (map rxLitI [''jpg'', ''jpeg'', ''png'', ''gif'', ''webp'', ''svg'',
                                 ''pdf'', ''zip'']),
             rxEos]"

definition slugPattern :: rx where
  "slugPattern =
     (let slugChar = Atom (\<lambda>a. case a of
                Ch d \<Rightarrow> (let n = (of_char (lowerChar d) :: nat)
                         in (97 \<le> n \<and> n \<le> 122) \<or> (48 \<le> n \<and> n \<le> 57) \<or> n = 45)
              | _ \<Rightarrow> False)
      in Seq (rxRep 12 slugChar) (Star slugChar))"

definition isLikelyArticleUrl :: "World \<Rightarrow> string \<Rightarrow> string \<Rightarrow> bool" where
  "isLikelyArticleUrl env candidateUrl src =
     (case parseUrl env candidateUrl of
        None \<Rightarrow> False
      | Some parsedCandidate \<Rightarrow>
          (case parseUrl env src of
             None \<Rightarrow> False
           | Some parsedSource \<Rightarrow>
               if hostname parsedCandidate \<noteq> hostname parsedSource then False
               else
                 let path = toLowerCase (pathname parsedCandidate)
                 in if path = [] \<or> path = ''/'' \<or> suffix ''/tag/'' path then False
                    else if rxTest fileExtensionPattern path then False
                    else if list_ex (\<lambda>pattern. rxTest pattern candidateUrl)
                              [sectionPattern, datePathPattern, dashedDatePattern,
                               articleIdPattern]
                         then True
                    else
                      let segments = splitSegments path
                      in if length segments \<ge> 2 then rxTest slugPattern (last segments)
                         else False))"

text \<open>
  \<open>anchorArticle\<close> is the body of the callback of \<open>extractFromLinksByPattern\<close> after its
  first test, \<open>anchorLoop\<close> the \<open>each\<close> around it.
\<close>

definition anchorArticle :: "World \<Rightarrow> string \<Rightarrow> AnchorElement \<Rightarrow> FeedArticle option" where
  "anchorArticle env src anchor =
     (case truthy (toAbsoluteUrl env src (anchorHref anchor)) of
        None \<Rightarrow> None
      | Some articleUrl \<Rightarrow>
          if \<not> isHttpUrl env articleUrl \<or> \<not> isLikelyArticleUrl env articleUrl src then None
          else
            let title = cleanText (Some (anchorText anchor))
            in if length title < 4 then None
               else
                 let container = closestContainer anchor
                 in Some \<lparr> title = title, url = articleUrl,
                             description = truthy (Some (cleanText (Some (summaryText container)))),
                             publishedAt = extractDateFromElement env container,
                             author = extractAuthorFromElement container \<rparr>)"

fun anchorLoop ::
  "World \<Rightarrow> string \<Rightarrow> FeedArticle list \<Rightarrow> AnchorElement list \<Rightarrow> FeedArticle list" where
  "anchorLoop env src candidates [] = candidates"
| "anchorLoop env src candidates (node # rest) =
     (if length candidates \<ge> MAX_ARTICLES then candidates
      else anchorLoop env src
             (case anchorArticle env src node of
                None \<Rightarrow> candidates
              | Some a \<Rightarrow> candidates @ [a])
             rest)"

definition extractFromLinksByPattern :: "World \<Rightarrow> Dom \<Rightarrow> string \<Rightarrow> FeedArticle list" where
  "extractFromLinksByPattern env doc src =
     uniqueArticles (anchorLoop env src [] (anchorElements doc))"

definition extractHeuristically :: "World \<Rightarrow> string \<Rightarrow> string \<Rightarrow> Error + NormalizedFeed" where
  "extractHeuristically env src html =
     (let doc = load env html;
          t0 = orElse (cleanText (ogSiteName doc)) (cleanText (Some (titleText doc)));
          t = (if t0 \<noteq> [] then Some t0 else map_option hostname (parseUrl env src))
      in (case t of
            None \<Rightarrow> Inl TypeError
          | Some resolvedTitle \<Rightarrow>
              let resolvedDescription =
                    orElse (cleanText (metaDescription doc))
                      (resolvedTitle @ autoFeedSuffix);
                  containerArticles = extractFromContainers env doc src;
                  found =
                    (if length containerArticles \<ge> 2 then containerArticles
                     else
                       let linkedArticles = extractFromLinksByPattern env doc src
                       in uniqueArticles (containerArticles @ linkedArticles))
              in if length found = 0 then Inl ExtractionError
                 else Inr \<lparr> nf_title = resolvedTitle, nf_description = resolvedDescription,
                            nf_articles = found \<rparr>))"


subsection \<open>The synthesizer\<close>

text \<open>
  \<open>generateRssFeed\<close> is \<open>generateRssXml\<close> up to the call of \<open>feed.rss2()\<close>: the options
  and the items handed to the \<open>feed\<close> package. The counter is the number of
  \<open>new Date()\<close> readings made so far; the options take the first two.
\<close>

definition articleItem :: "World \<Rightarrow> nat \<Rightarrow> FeedArticle \<Rightarrow> FeedItem \<times> nat" where
  "articleItem env n article =
     (case (case truthy (publishedAt article) of
              Some p \<Rightarrow> (parseDate env p, n)
            | None \<Rightarrow> (Some (now env n), Suc n)) of
        (articleDate, n1) \<Rightarrow>
          (case (case articleDate of
                   None \<Rightarrow> (now env n1, Suc n1)
                 | Some t \<Rightarrow> (t, n1)) of
             (safeDate, n2) \<Rightarrow>
               (\<lparr> itemTitle = title article,
                  itemId = url article,
                  itemLink = url article,
                  itemDescription = (case description article of None \<Rightarrow> [] | Some d \<Rightarrow> d),
                  itemDate = safeDate,
                  itemAuthor = (case truthy (author article) of
                                  None \<Rightarrow> None
                                | Some a \<Rightarrow> Some [\<lparr> name = a \<rparr>]) \<rparr>,
                n2)))"

fun addItems :: "World \<Rightarrow> nat \<Rightarrow> FeedArticle list \<Rightarrow> FeedItem list" where
  "addItems env n [] = []"
| "addItems env n (article # rest) =
     (case articleItem env n article of (item, n') \<Rightarrow> item # addItems env n' rest)"

definition generateRssFeed ::
  "World \<Rightarrow> string \<Rightarrow> string \<Rightarrow> string \<Rightarrow> FeedArticle list \<Rightarrow> Error + Feed" where
  "generateRssFeed env src ttl desc as =
     (case parseUrl env src of
        None \<Rightarrow> Inl TypeError
      | Some parsed \<Rightarrow>
          Inr \<lparr> optTitle = ttl, optDescription = desc, optId = src, optLink = src,
                optLanguage = ''ja'', optUpdated = now env 0,
                optGenerator = ''create-rss-feed'',
                optCopyright = fullYear env (now env 1) @ '' '' @ hostname parsed,
                feedItems = addItems env 2 as \<rparr>)"

definition generateRssXml ::
  "World \<Rightarrow> string \<Rightarrow> string \<Rightarrow> string \<Rightarrow> FeedArticle list \<Rightarrow> Error + string" where
  "generateRssXml env src ttl desc as =
     (case generateRssFeed env src ttl desc as of
        Inl e \<Rightarrow> Inl e
      | Inr feed \<Rightarrow> Inr (rss2 env feed))"

subsection \<open>The orchestrator\<close>

text \<open>
  \<open>extractFeed\<close> returns, with its result, the requests it made: the page URL once it
  is fetched, then the feed candidates handed to the extractor.
\<close>

definition feedResultOf :: "World \<Rightarrow> string \<Rightarrow> NormalizedFeed \<Rightarrow> ExtractionMethod \<Rightarrow> Error + FeedResult" where
  "feedResultOf env u feed m =
     (case generateRssXml env u (nf_title feed) (nf_description feed) (nf_articles feed) of
        Inl e \<Rightarrow> Inl e
      | Inr xml \<Rightarrow>
          Inr \<lparr> sourceUrl = u, feedTitle = nf_title feed, feedDescription = nf_description feed,
                articles = nf_articles feed, rssXml = xml, usedMethod = m \<rparr>)"

definition extractFeed :: "World \<Rightarrow> string \<Rightarrow> string list \<times> (Error + FeedResult)" where
  "extractFeed env u =
     (if \<not> isHttpUrl env u then ([], Inl InvalidUrlError)
      else
        (case parseUrl env u of
           None \<Rightarrow> ([], Inl TypeError)
         | Some parsed \<Rightarrow>
             if protocol parsed \<noteq> ''http:'' \<and> protocol parsed \<noteq> ''https:''
             then ([], Inl UnsupportedProtocolError)
             else
               (case fetchHtml env u of
                  Inl e \<Rightarrow> ([u], Inl e)
                | Inr html \<Rightarrow>
                    (case tryAutoDetectFeeds env u html of
                       (probed, autoDetected) \<Rightarrow>
                         (case autoDetected of
                            Some feed \<Rightarrow> (u # probed, feedResultOf env u feed RssAutoDetect)
                          | None \<Rightarrow>
                              (case extractHeuristically env u html of
                                 Inl e \<Rightarrow> (u # probed, Inl e)
                               | Inr heuristic \<Rightarrow>
                                   (u # probed, feedResultOf env u heuristic Heuristic)))))))"

subsection \<open>The \<open>generate-feed\<close> handler (main.ts)\<close>

text \<open>
  The handler loads the rules of the source and calls \<open>extractFeed(normalizedUrl, { rules })\<close>.
  \<open>extractFeed\<close> has one parameter, so the second argument is dropped at the call.
\<close>

datatype HandlerFailure = UrlMissing | UrlMalformed | NoArticles | Thrown Error

datatype GenerateFeedIpcResponse = Failure HandlerFailure | Success FeedResult

definition isValidHttpUrl :: "World \<Rightarrow> string \<Rightarrow> bool" where
  "isValidHttpUrl env v =
     (case parseUrl env v of
        None \<Rightarrow> False
      | Some parsed \<Rightarrow> protocol parsed = ''http:'' \<or> protocol parsed = ''https:'')"

definition generateFeedHandler ::
  "World \<Rightarrow> (string \<Rightarrow> Error + jsobj option) \<Rightarrow> string option \<Rightarrow>
   string list \<times> GenerateFeedIpcResponse" where
  "generateFeedHandler env getRulesBySourceUrl u =
     (let normalizedUrl = trim (case u of None \<Rightarrow> [] | Some s \<Rightarrow> s)
      in if normalizedUrl = [] then ([], Failure UrlMissing)
         else if \<not> isValidHttpUrl env normalizedUrl then ([], Failure UrlMalformed)
         else
           (case getRulesBySourceUrl normalizedUrl of
              Inl e \<Rightarrow> ([], Failure (Thrown e))
            | Inr rules \<Rightarrow>
                (case extractFeed env normalizedUrl of
                   (requests, Inl e) \<Rightarrow> (requests, Failure (Thrown e))
                 | (requests, Inr feedResult) \<Rightarrow>
                     if length (articles feedResult) = 0 then (requests, Failure NoArticles)
                     else (requests, Success feedResult))))"


section \<open>Specification-side definitions\<close>

subsection \<open>The rule engine\<close>

text \<open>
  The predicate of the rule engine as the specification words it, on the article as it
  is (no trimming): every required term occurs, no excluded term occurs, case ignored,
  and a required description or timestamp has a character that is not white space.
  \<open>claimedKeeps\<close> differs in the last two conjuncts only: it asks for a description
  that is not the empty string and a timestamp that is there.
\<close>

definition containsIgnoringCase :: "string \<Rightarrow> string \<Rightarrow> bool" where
  "containsIgnoringCase text term = sublist (toLowerCase term) (toLowerCase text)"

definition nonBlank :: "string option \<Rightarrow> bool" where
  "nonBlank v = (case v of None \<Rightarrow> False | Some s \<Rightarrow> list_ex (\<lambda>c. \<not> isWhitespace c) s)"

definition trimmedTerm :: "string \<Rightarrow> bool" where
  "trimmedTerm t = (t \<noteq> [] \<and> \<not> isWhitespace (hd t) \<and> \<not> isWhitespace (last t))"

definition ruleKeeps :: "'a RuleApplicableArticle_scheme \<Rightarrow> NormalizedSourceRules \<Rightarrow> bool" where
  "ruleKeeps article rules =
     (let title = (case ra_title article of None \<Rightarrow> [] | Some s \<Rightarrow> s);
          url = (case ra_url article of None \<Rightarrow> [] | Some s \<Rightarrow> s)
      in (\<forall>term \<in> set (titleIncludes rules). containsIgnoringCase title term) \<and>
         (\<forall>term \<in> set (titleExcludes rules). \<not> containsIgnoringCase title term) \<and>
         (\<forall>term \<in> set (urlIncludes rules). containsIgnoringCase url term) \<and>
         (\<forall>term \<in> set (urlExcludes rules). \<not> containsIgnoringCase url term) \<and>
         (descriptionRequired rules \<longrightarrow> nonBlank (ra_description article)) \<and>
         (publishedAtRequired rules \<longrightarrow> nonBlank (ra_publishedAt article)))"

definition claimedKeeps :: "'a RuleApplicableArticle_scheme \<Rightarrow> NormalizedSourceRules \<Rightarrow> bool" where
  "claimedKeeps article rules =
     (let title = (case ra_title article of None \<Rightarrow> [] | Some s \<Rightarrow> s);
          url = (case ra_url article of None \<Rightarrow> [] | Some s \<Rightarrow> s)
      in (\<forall>term \<in> set (titleIncludes rules). containsIgnoringCase title term) \<and>
         (\<forall>term \<in> set (titleExcludes rules). \<not> containsIgnoringCase title term) \<and>
         (\<forall>term \<in> set (urlIncludes rules). containsIgnoringCase url term) \<and>
         (\<forall>term \<in> set (urlExcludes rules). \<not> containsIgnoringCase url term) \<and>
         (descriptionRequired rules \<longrightarrow>
            (case ra_description article of None \<Rightarrow> False | Some s \<Rightarrow> s \<noteq> [])) \<and>
         (publishedAtRequired rules \<longrightarrow> ra_publishedAt article \<noteq> None))"

text \<open>A \<open>FeedArticle\<close> seen as a \<open>RuleApplicableArticle\<close>.\<close>

definition asRuleApplicable :: "FeedArticle \<Rightarrow> RuleApplicableArticle" where
  "asRuleApplicable a =
     \<lparr> ra_title = Some (title a), ra_url = Some (url a),
       ra_description = description a, ra_publishedAt = publishedAt a \<rparr>"

subsection \<open>The scraper\<close>

text \<open>
  Deduplication as the specification words it: of the articles that share a URL the
  first stays. A feed candidate is usable when the extractor returns an object for it
  and at least one of its entries survives normalization.
\<close>

function firstWins :: "FeedArticle list \<Rightarrow> FeedArticle list" where
  "firstWins [] = []"
| "firstWins (a # as) = a # firstWins (filter (\<lambda>b. url b \<noteq> url a) as)"
  by pat_completeness auto
termination
  by (relation "measure length") (auto simp: less_Suc_eq_le)

definition usableCandidate :: "World \<Rightarrow> string \<Rightarrow> bool" where
  "usableCandidate env feedLink =
     (case pickExtractor (feedExtractorLib env) of
        None \<Rightarrow> False
      | Some extractor \<Rightarrow>
          (case extractor feedLink of
             ExtractorObject extracted \<Rightarrow> normalizedEntriesOf env extracted \<noteq> []
           | _ \<Rightarrow> False))"

section \<open>Example inputs\<close>

definition numberedArticle :: "nat \<Rightarrow> RuleApplicableArticle" where
  "numberedArticle i =
     \<lparr> ra_title = Some (''Article '' @ replicate i CHR ''I''),
       ra_url = Some (''https://example.com/'' @ replicate i CHR ''i''),
       ra_description = None, ra_publishedAt = None \<rparr>"

definition tenArticles :: "RuleApplicableArticle list" where
  "tenArticles = map numberedArticle [0 ..< 10]"

definition malformedRules :: "jsobj option" where
  "malformedRules =
     Some [(''titleIncludes'', JArr [JNum (Finite 5), JNull, JStr ''   '']),
           (''titleExcludes'', JStr ''x''),
           (''descriptionRequired'', JStr ''yes''),
           (''skipTopCount'', JNum NegInfinity)]"

definition skipThreeRules :: "jsobj option" where
  "skipThreeRules = Some [(''skipTopCount'', JNum (Finite 3))]"

definition blankDescriptionArticle :: RuleApplicableArticle where
  "blankDescriptionArticle =
     \<lparr> ra_title = Some ''News'', ra_url = Some ''https://example.com/a'',
       ra_description = Some '' '', ra_publishedAt = None \<rparr>"

definition descriptionRequiredRules :: "jsobj option" where
  "descriptionRequiredRules = Some [(''descriptionRequired'', JBool True)]"

definition sponsoredRules :: "jsobj option" where
  "sponsoredRules = Some [(''titleExcludes'', JArr [JStr ''sponsored''])]"

definition sponsoredArticle :: RuleApplicableArticle where
  "sponsoredArticle =
     \<lparr> ra_title = Some ''A Sponsored Post'', ra_url = Some ''https://example.com/ad'',
       ra_description = Some ''Buy'', ra_publishedAt = None \<rparr>"

definition exampleUrl :: string where
  "exampleUrl = ''https://example.com/''"

definition exampleParseUrl :: "string \<Rightarrow> Url option" where
  "exampleParseUrl s =
     (if prefix ''https://example.com/'' s
      then Some \<lparr> protocol = ''https:'', hostname = ''example.com'', pathname = drop 19 s \<rparr>
      else if prefix ''ftp://example.com/'' s
      then Some \<lparr> protocol = ''ftp:'', hostname = ''example.com'', pathname = drop 17 s \<rparr>
      else None)"

definition exampleResolveUrl :: "string \<Rightarrow> string \<Rightarrow> string option" where
  "exampleResolveUrl c b =
     (if prefix ''/'' c then Some (''https://example.com'' @ c)
      else if prefix ''https://'' c then Some c
      else None)"

definition emptyEntry :: EntryFields where
  "emptyEntry =
     \<lparr> e_title = None, e_summary = None, e_contentSnippet = None, e_link = None,
       e_url = None, e_id = None, e_description = None, e_content = None,
       e_published = None, e_pubDate = None, e_isoDate = None, e_publishedAt = None,
       e_author = AuthorFalsy, e_authors = None \<rparr>"

definition exampleEntries :: "RawEntry list" where
  "exampleEntries =
     [ObjectEntry (emptyEntry\<lparr> e_title := Some ''Alpha'', e_link := Some ''https://example.com/a'',
                               e_author := AuthorString ''Ann'' \<rparr>),
      NonObjectEntry,
      ObjectEntry (emptyEntry\<lparr> e_title := Some ''Beta'', e_url := Some ''https://example.com/b'',
                               e_pubDate := Some ''2024-01-01T00:00:00.000Z'' \<rparr>),
      ObjectEntry (emptyEntry\<lparr> e_title := Some ''Alpha again'',
                               e_link := Some ''https://example.com/a'' \<rparr>),
      ObjectEntry (emptyEntry\<lparr> e_title := Some ''Elsewhere'', e_link := Some ''mailto:x'' \<rparr>)]"

definition exampleExtractor :: "string \<Rightarrow> ExtractorOutcome" where
  "exampleExtractor feedLink =
     (if feedLink = ''https://example.com/feed.xml''
      then ExtractorObject \<lparr> x_title = Some ''Example Feed'', x_description = None,
                             x_entries = Some exampleEntries, x_items = None \<rparr>
      else if feedLink = ''https://example.com/empty.xml''
      then ExtractorObject \<lparr> x_title = Some ''Empty'', x_description = None,
                             x_entries = None, x_items = Some [NonObjectEntry] \<rparr>
      else ExtractorThrows)"

definition noQueries :: ElementQueries where
  "noQueries =
     \<lparr> summaryText = [], timeDatetimeAttr = None, anyDatetimeAttr = None, timeText = [],
       dateClassText = [], relAuthorText = [], authorClassText = [] \<rparr>"

definition feedDoc :: Dom where
  "feedDoc =
     \<lparr> linkElements =
         [\<lparr> relAttr = Some ''stylesheet'', typeAttr = Some ''text/css'', hrefAttr = Some ''/s.css'' \<rparr>,
          \<lparr> relAttr = Some ''alternate'', typeAttr = Some ''application/atom+xml'',
            hrefAttr = Some ''/broken.xml'' \<rparr>,
          \<lparr> relAttr = Some ''alternate'', typeAttr = Some ''application/rss+xml'',
            hrefAttr = Some ''/empty.xml'' \<rparr>,
          \<lparr> relAttr = Some ''Alternate'', typeAttr = Some ''application/RSS+xml'',
            hrefAttr = Some ''/feed.xml'' \<rparr>,
          \<lparr> relAttr = Some ''alternate'', typeAttr = Some ''application/rss+xml'',
            hrefAttr = Some ''/later.xml'' \<rparr>],
       ogSiteName = None, metaDescription = Some ''An example site'', titleText = ''Example'',
       containerElements = [], anchorElements = [] \<rparr>"

definition containerA :: ContainerElement where
  "containerA =
     \<lparr> summaryText = ''Buy  now'', timeDatetimeAttr = None, anyDatetimeAttr = None,
       timeText = [], dateClassText = [], relAuthorText = [], authorClassText = [],
       linkHref = Some ''/a'', linkText = ''more'', headingText = ''A Sponsored Post'' \<rparr>"

definition containerB :: ContainerElement where
  "containerB =
     \<lparr> summaryText = [], timeDatetimeAttr = Some ''2024-01-01T00:00:00.000Z'',
       anyDatetimeAttr = None, timeText = [], dateClassText = [], relAuthorText = ''Bob'',
       authorClassText = [], linkHref = Some ''/b'', linkText = ''Real news'',
       headingText = [] \<rparr>"

definition pageDoc :: Dom where
  "pageDoc =
     \<lparr> linkElements = [], ogSiteName = Some ''Example Site'', metaDescription = None,
       titleText = ''Example'', containerElements = [containerA, containerB, containerA],
       anchorElements = [] \<rparr>"

definition containerN :: ContainerElement where
  "containerN =
     \<lparr> summaryText = ''First  summary'', timeDatetimeAttr = None, anyDatetimeAttr = None,
       timeText = [], dateClassText = [], relAuthorText = [], authorClassText = [],
       linkHref = Some ''/news/n'', linkText = ''read'', headingText = ''Nu story'' \<rparr>"

definition mixedDoc :: Dom where
  "mixedDoc =
     \<lparr> linkElements = [], ogSiteName = None, metaDescription = None,
       titleText = ''Example'', containerElements = [containerN],
       anchorElements =
         [\<lparr> anchorHref = Some ''/news/n'', anchorText = ''Nu story again'',
            closestContainer = noQueries \<rparr>,
          \<lparr> anchorHref = Some ''mailto:nobody'', anchorText = ''Write to us'',
            closestContainer = noQueries \<rparr>,
          \<lparr> anchorHref = Some ''/news/c'', anchorText = ''Gamma'',
            closestContainer = noQueries \<rparr>] \<rparr>"

definition emptyDoc :: Dom where
  "emptyDoc =
     \<lparr> linkElements = [], ogSiteName = None, metaDescription = None, titleText = [],
       containerElements = [], anchorElements = [] \<rparr>"

definition feedWorld :: World where
  "feedWorld =
     \<lparr> parseUrl = exampleParseUrl,
       resolveUrl = exampleResolveUrl,
       parseDate = (\<lambda>s. if s = ''2024-01-01T00:00:00.000Z'' then Some 1704067200000 else None),
       toISOString = (\<lambda>t. ''2024-01-01T00:00:00.000Z''),
       fullYear = (\<lambda>t. ''2025''),
       now = (\<lambda>n. 1750000000000 + int n),
       httpGet = (\<lambda>u. if u = exampleUrl
                       then Some \<lparr> contentTypeHeader = Some ''text/html; charset=utf-8'',
                                   responseData = Some ''<html></html>'' \<rparr>
                       else None),
       load = (\<lambda>html. feedDoc),
       feedExtractorLib =
         \<lparr> lib_extract = Some exampleExtractor, lib_extractFromUrl = None, lib_default = None \<rparr>,
       rss2 = (\<lambda>feed. concat (map (\<lambda>i. ''<item>'' @ itemLink i @ ''</item>'') (feedItems feed))) \<rparr>"

definition pageWorld :: World where
  "pageWorld = feedWorld\<lparr> load := (\<lambda>html. pageDoc) \<rparr>"

definition mixedWorld :: World where
  "mixedWorld = feedWorld\<lparr> load := (\<lambda>html. mixedDoc) \<rparr>"

definition emptyWorld :: World where
  "emptyWorld = feedWorld\<lparr> load := (\<lambda>html. emptyDoc) \<rparr>"

definition storedSponsoredRules :: "string \<Rightarrow> Error + jsobj option" where
  "storedSponsoredRules u = Inr sponsoredRules"

definition exampleHtml :: string where
  "exampleHtml = ''<html></html>''"

definition alphaArticle :: FeedArticle where
  "alphaArticle =
     \<lparr> title = ''Alpha'', url = ''https://example.com/a'', description = None,
       publishedAt = None, author = Some ''Ann'' \<rparr>"

definition alphaAgain :: FeedArticle where
  "alphaAgain =
     \<lparr> title = ''Alpha again'', url = ''https://example.com/a'', description = None,
       publishedAt = None, author = None \<rparr>"

definition betaArticle :: FeedArticle where
  "betaArticle =
     \<lparr> title = ''Beta'', url = ''https://example.com/b'', description = None,
       publishedAt = Some ''2024-01-01T00:00:00.000Z'', author = None \<rparr>"

definition sponsoredPost :: FeedArticle where
  "sponsoredPost =
     \<lparr> title = ''A Sponsored Post'', url = ''https://example.com/a'',
       description = Some ''Buy now'', publishedAt = None, author = None \<rparr>"

definition realNews :: FeedArticle where
  "realNews =
     \<lparr> title = ''Real news'', url = ''https://example.com/b'', description = None,
       publishedAt = Some ''2024-01-01T00:00:00.000Z'', author = Some ''Bob'' \<rparr>"

definition nuStory :: FeedArticle where
  "nuStory =
     \<lparr> title = ''Nu story'', url = ''https://example.com/news/n'',
       description = Some ''First summary'', publishedAt = None, author = None \<rparr>"

definition nuStoryAgain :: FeedArticle where
  "nuStoryAgain =
     \<lparr> title = ''Nu story again'', url = ''https://example.com/news/n'',
       description = None, publishedAt = None, author = None \<rparr>"

definition gammaArticle :: FeedArticle where
  "gammaArticle =
     \<lparr> title = ''Gamma'', url = ''https://example.com/news/c'', description = None,
       publishedAt = None, author = None \<rparr>"

definition feedWorldResult :: FeedResult where
  "feedWorldResult =
     \<lparr> sourceUrl = ''https://example.com/'', feedTitle = ''Example Feed'',
       feedDescription = ''An example site'', articles = [alphaArticle, betaArticle],
       rssXml = ''<item>https://example.com/a</item><item>https://example.com/b</item>'',
       usedMethod = RssAutoDetect \<rparr>"

definition pageWorldResult :: FeedResult where
  "pageWorldResult =
     \<lparr> sourceUrl = ''https://example.com/'', feedTitle = ''Example Site'',
       feedDescription = ''Example Site (auto-generated feed)'',
       articles = [sponsoredPost, realNews],
       rssXml = ''<item>https://example.com/a</item><item>https://example.com/b</item>'',
       usedMethod = Heuristic \<rparr>"

definition mixedWorldFeed :: NormalizedFeed where
  "mixedWorldFeed =
     \<lparr> nf_title = ''Example'', nf_description = ''Example (auto-generated feed)'',
       nf_articles = [nuStory, gammaArticle] \<rparr>"

definition pageFeed :: Feed where
  "pageFeed =
     \<lparr> optTitle = ''Example Site'', optDescription = ''Example Site (auto-generated feed)'',
       optId = ''https://example.com/'', optLink = ''https://example.com/'',
       optLanguage = ''ja'', optUpdated = 1750000000000, optGenerator = ''create-rss-feed'',
       optCopyright = ''2025 example.com'',
       feedItems =
         [\<lparr> itemTitle = ''A Sponsored Post'', itemId = ''https://example.com/a'',
            itemLink = ''https://example.com/a'', itemDescription = ''Buy now'',
            itemDate = 1750000000002, itemAuthor = None \<rparr>,
          \<lparr> itemTitle = ''Real news'', itemId = ''https://example.com/b'',
            itemLink = ''https://example.com/b'', itemDescription = [],
            itemDate = 1704067200000, itemAuthor = Some [\<lparr> name = ''Bob'' \<rparr>] \<rparr>] \<rparr>"

section \<open>Properties of the string helpers\<close>

lemma set_foldl_insertion:
  "set (foldl (\<lambda>acc x. if x \<in> set acc then acc else acc @ [x]) acc xs) = set acc \<union> set xs"
  by (induction xs arbitrary: acc) auto

lemma set_insertionOrder: "set (insertionOrder xs) = set xs"
  by (simp add: insertionOrder_def set_foldl_insertion)

lemma distinct_foldl_insertion:
  "distinct acc \<Longrightarrow> distinct (foldl (\<lambda>acc x. if x \<in> set acc then acc else acc @ [x]) acc xs)"
  by (induction xs arbitrary: acc) auto

lemma distinct_insertionOrder: "distinct (insertionOrder xs)"
  by (simp add: insertionOrder_def distinct_foldl_insertion)

lemma isWhitespace_lowerChar: "isWhitespace (lowerChar c) = isWhitespace c"
  by (auto simp: isWhitespace_def lowerChar_def Let_def)

text \<open>A term that starts with a character outside \<open>P\<close> survives \<open>dropWhile P\<close>.\<close>

lemma sublist_dropWhile:
  "t \<noteq> [] \<Longrightarrow> \<not> P (hd t) \<Longrightarrow> sublist t s \<Longrightarrow> sublist t (dropWhile P s)"
proof (induction s)
  case Nil
  then show ?case by simp
next
  case (Cons x xs)
  show ?case
  proof (cases "P x")
    case True
    from Cons.prems have "\<not> prefix t (x # xs)"
      using True by (cases t) auto
    with Cons.prems have "sublist t xs" by (simp add: sublist_Cons_right)
    with Cons True show ?thesis by simp
  next
    case False
    with Cons.prems show ?thesis by simp
  qed
qed

lemma sublist_trim_self: "sublist (trim s) s"
proof -
  have "suffix (dropWhile isWhitespace s) s" by (rule suffix_dropWhile)
  moreover have "prefix (trim s) (dropWhile isWhitespace s)"
    unfolding trim_def
    by (metis suffix_dropWhile suffix_to_prefix rev_rev_ident)
  ultimately show ?thesis
    by (meson prefix_imp_sublist suffix_imp_sublist sublist_order.order_trans)
qed

lemma sublist_trim:
  assumes "t \<noteq> []" "\<not> isWhitespace (hd t)" "\<not> isWhitespace (last t)"
  shows "sublist t (trim s) \<longleftrightarrow> sublist t s"
proof
  assume "sublist t (trim s)"
  then show "sublist t s" using sublist_trim_self by (rule sublist_order.order_trans)
next
  assume a: "sublist t s"
  have 1: "sublist t (dropWhile isWhitespace s)"
    using assms a by (intro sublist_dropWhile)
  have "sublist (rev t) (rev (dropWhile isWhitespace s))" using 1 by simp
  moreover have "rev t \<noteq> []" "\<not> isWhitespace (hd (rev t))"
    using assms by (simp_all add: hd_rev)
  ultimately have "sublist (rev t) (dropWhile isWhitespace (rev (dropWhile isWhitespace s)))"
    by (intro sublist_dropWhile)
  then have "sublist (rev (rev t)) (rev (dropWhile isWhitespace (rev (dropWhile isWhitespace s))))"
    by (simp only: sublist_rev)
  then show "sublist t (trim s)" by (simp add: trim_def)
qed

lemma toLowerCase_trim: "toLowerCase (trim s) = trim (toLowerCase s)"
  by (simp add: toLowerCase_def trim_def dropWhile_map rev_map comp_def isWhitespace_lowerChar)

lemma trim_ends:
  assumes "trim s \<noteq> []"
  shows "\<not> isWhitespace (hd (trim s))" and "\<not> isWhitespace (last (trim s))"
proof -
  let ?d = "dropWhile isWhitespace s"
  let ?e = "dropWhile isWhitespace (rev ?d)"
  from assms have ne: "?e \<noteq> []" by (simp add: trim_def)
  have dne: "?d \<noteq> []"
  proof
    assume "?d = []"
    then have "?e = []" by (simp only: rev.simps dropWhile.simps)
    with ne show False by contradiction
  qed
  have "last (trim s) = hd ?e" by (simp add: trim_def last_rev)
  with ne show "\<not> isWhitespace (last (trim s))" by (simp add: hd_dropWhile)
  have "suffix ?e (rev ?d)" by (rule suffix_dropWhile)
  then obtain p where p: "rev ?d = p @ ?e" by (auto simp: suffix_def)
  have "hd (trim s) = last ?e" by (simp add: trim_def hd_rev)
  also have "\<dots> = last (rev ?d)" using p ne by (metis last_appendR)
  also have "\<dots> = hd ?d" by (simp add: last_rev)
  finally show "\<not> isWhitespace (hd (trim s))" using dne by (simp add: hd_dropWhile)
qed

lemma trim_nonempty_iff: "trim s \<noteq> [] \<longleftrightarrow> (\<exists>c \<in> set s. \<not> isWhitespace c)"
proof -
  have "(\<exists>c \<in> set (dropWhile isWhitespace s). \<not> isWhitespace c) \<longleftrightarrow> (\<exists>c \<in> set s. \<not> isWhitespace c)"
  proof
    assume "\<exists>c \<in> set (dropWhile isWhitespace s). \<not> isWhitespace c"
    then show "\<exists>c \<in> set s. \<not> isWhitespace c" by (meson set_dropWhileD)
  next
    assume "\<exists>c \<in> set s. \<not> isWhitespace c"
    then have ne: "dropWhile isWhitespace s \<noteq> []" by (simp add: dropWhile_eq_Nil_conv)
    then have "\<not> isWhitespace (hd (dropWhile isWhitespace s))" by (rule hd_dropWhile)
    moreover have "hd (dropWhile isWhitespace s) \<in> set (dropWhile isWhitespace s)"
      using ne by (rule hd_in_set)
    ultimately show "\<exists>c \<in> set (dropWhile isWhitespace s). \<not> isWhitespace c" by blast
  qed
  then show ?thesis by (simp add: trim_def dropWhile_eq_Nil_conv)
qed

section \<open>Properties of the rule engine\<close>

lemma normalizeTermList_terms:
  assumes "t \<in> set (normalizeTermList v)"
  shows "trimmedTerm t"
proof -
  from assms obtain s where "t = trim s" "t \<noteq> []"
    by (auto simp: normalizeTermList_def set_insertionOrder split: jsval.splits)
  then show ?thesis using trim_ends[of s] by (simp add: trimmedTerm_def)
qed

lemma containsIgnoringCase_trim:
  assumes "trimmedTerm t"
  shows "containsIgnoringCase (trim s) t \<longleftrightarrow> containsIgnoringCase s t"
proof -
  from assms have "toLowerCase t \<noteq> []" "\<not> isWhitespace (hd (toLowerCase t))"
    "\<not> isWhitespace (last (toLowerCase t))"
    by (simp_all add: trimmedTerm_def toLowerCase_def hd_map last_map isWhitespace_lowerChar)
  then show ?thesis by (simp add: containsIgnoringCase_def toLowerCase_trim sublist_trim)
qed

lemma isPresent_nonBlank: "isPresent v = nonBlank v"
  by (cases v) (simp_all add: isPresent_def nonBlank_def trim_nonempty_iff list_ex_iff)

lemma includesAll_iff:
  assumes "\<forall>t \<in> set terms. trimmedTerm t"
  shows "includesAll (trim text) terms \<longleftrightarrow> (\<forall>t \<in> set terms. containsIgnoringCase text t)"
proof -
  have "includesAll (trim text) terms \<longleftrightarrow> (\<forall>t \<in> set terms. containsIgnoringCase (trim text) t)"
    by (cases terms) (simp_all add: includesAll_def containsIgnoringCase_def list_all_iff Let_def)
  with assms show ?thesis by (simp add: containsIgnoringCase_trim)
qed

lemma includesAny_iff:
  assumes "\<forall>t \<in> set terms. trimmedTerm t"
  shows "includesAny (trim text) terms \<longleftrightarrow> (\<exists>t \<in> set terms. containsIgnoringCase text t)"
proof -
  have "includesAny (trim text) terms \<longleftrightarrow> (\<exists>t \<in> set terms. containsIgnoringCase (trim text) t)"
    by (cases terms) (simp_all add: includesAny_def containsIgnoringCase_def list_ex_iff Let_def)
  with assms show ?thesis by (simp add: containsIgnoringCase_trim)
qed

lemma normalizeSourceRules_trimmed:
  "\<forall>t \<in> set (titleIncludes (normalizeSourceRules r)). trimmedTerm t"
  "\<forall>t \<in> set (titleExcludes (normalizeSourceRules r)). trimmedTerm t"
  "\<forall>t \<in> set (urlIncludes (normalizeSourceRules r)). trimmedTerm t"
  "\<forall>t \<in> set (urlExcludes (normalizeSourceRules r)). trimmedTerm t"
  by (auto simp: normalizeSourceRules_def Let_def dest: normalizeTermList_terms)

lemma matchesArticle_ruleKeeps:
  "matchesArticle article (normalizeSourceRules r) = ruleKeeps article (normalizeSourceRules r)"
  unfolding matchesArticle_def ruleKeeps_def Let_def
  by (simp add: includesAll_iff includesAny_iff normalizeSourceRules_trimmed isPresent_nonBlank)

lemma inactive_matches:
  assumes "titleIncludes rules = []" "titleExcludes rules = []" "urlIncludes rules = []"
    "urlExcludes rules = []" "\<not> descriptionRequired rules" "\<not> publishedAtRequired rules"
  shows "matchesArticle article rules"
  using assms by (simp add: matchesArticle_def includesAll_def includesAny_def)

lemma length_filter_complement:
  "length xs - length (filter P xs) = length (filter (\<lambda>x. \<not> P x) xs)"
  using sum_length_filter_compl[of P xs] by simp

lemma normalize_None:
  "normalizeSourceRules None =
     \<lparr> titleIncludes = [], titleExcludes = [], urlIncludes = [], urlExcludes = [],
       descriptionRequired = False, publishedAtRequired = False, skipTopCount = 0 \<rparr>"
  by (simp add: normalizeSourceRules_def getProp_def normalizeTermList_def normalizeBoolean_def
      normalizeSkipTopCount_def)

lemma normalize_malformedRules:
  "normalizeSourceRules malformedRules =
     \<lparr> titleIncludes = [], titleExcludes = [], urlIncludes = [], urlExcludes = [],
       descriptionRequired = False, publishedAtRequired = False, skipTopCount = 0 \<rparr>"
  by (simp add: malformedRules_def normalizeSourceRules_def getProp_def normalizeTermList_def
      normalizeBoolean_def normalizeSkipTopCount_def insertionOrder_def trim_def isWhitespace_def)

lemma normalize_skipThreeRules:
  "normalizeSourceRules skipThreeRules =
     \<lparr> titleIncludes = [], titleExcludes = [], urlIncludes = [], urlExcludes = [],
       descriptionRequired = False, publishedAtRequired = False, skipTopCount = 3 \<rparr>"
  by (simp add: skipThreeRules_def normalizeSourceRules_def getProp_def normalizeTermList_def
      normalizeBoolean_def normalizeSkipTopCount_def)

lemma normalize_sponsoredRules:
  "normalizeSourceRules sponsoredRules =
     \<lparr> titleIncludes = [], titleExcludes = [''sponsored''], urlIncludes = [], urlExcludes = [],
       descriptionRequired = False, publishedAtRequired = False, skipTopCount = 0 \<rparr>"
  by (simp add: sponsoredRules_def normalizeSourceRules_def getProp_def normalizeTermList_def
      normalizeBoolean_def normalizeSkipTopCount_def insertionOrder_def trim_def isWhitespace_def)

lemma normalize_descriptionRequiredRules:
  "normalizeSourceRules descriptionRequiredRules =
     \<lparr> titleIncludes = [], titleExcludes = [], urlIncludes = [], urlExcludes = [],
       descriptionRequired = True, publishedAtRequired = False, skipTopCount = 0 \<rparr>"
  by (simp add: descriptionRequiredRules_def normalizeSourceRules_def getProp_def
      normalizeTermList_def normalizeBoolean_def normalizeSkipTopCount_def)

text \<open>
  C3. When the normalized rule set has no active constraint (every list empty, both
  flags false, \<open>skipTopCount\<close> zero), \<open>applySourceRules\<close> returns the input list
  unchanged and the three counts are zero. The absent rule set normalizes to that.
\<close>

theorem applySourceRules_default_identity:
  assumes "rulesInput = None \<or> normalizeSourceRules rulesInput =
     \<lparr> titleIncludes = [], titleExcludes = [], urlIncludes = [], urlExcludes = [],
       descriptionRequired = False, publishedAtRequired = False, skipTopCount = 0 \<rparr>"
  shows "keptArticles (applySourceRules arts rulesInput) = arts \<and>
         skippedTopCount (applySourceRules arts rulesInput) = 0 \<and>
         ruleFilteredCount (applySourceRules arts rulesInput) = 0 \<and>
         filteredOutCount (applySourceRules arts rulesInput) = 0"
proof -
  from assms have "normalizeSourceRules rulesInput =
     \<lparr> titleIncludes = [], titleExcludes = [], urlIncludes = [], urlExcludes = [],
       descriptionRequired = False, publishedAtRequired = False, skipTopCount = 0 \<rparr>"
    using normalize_None by auto
  then show ?thesis by (simp add: applySourceRules_def hasActiveRules_def)
qed

theorem applySourceRules_default_identity_witness:
  "keptArticles (applySourceRules tenArticles None) = tenArticles \<and>
   filteredOutCount (applySourceRules tenArticles None) = 0 \<and>
   normalizeSourceRules malformedRules =
     \<lparr> titleIncludes = [], titleExcludes = [], urlIncludes = [], urlExcludes = [],
       descriptionRequired = False, publishedAtRequired = False, skipTopCount = 0 \<rparr> \<and>
   keptArticles (applySourceRules tenArticles malformedRules) = tenArticles \<and>
   skippedTopCount (applySourceRules tenArticles malformedRules) = 0 \<and>
   ruleFilteredCount (applySourceRules tenArticles malformedRules) = 0 \<and>
   filteredOutCount (applySourceRules tenArticles malformedRules) = 0"
  using applySourceRules_default_identity [of None tenArticles]
    applySourceRules_default_identity [of malformedRules tenArticles]
    normalize_malformedRules
  by simp

lemma normalize_skip_rule:
  "normalizeSourceRules (Some [(''skipTopCount'', JNum (Finite (of_nat N)))]) =
     \<lparr> titleIncludes = [], titleExcludes = [], urlIncludes = [], urlExcludes = [],
       descriptionRequired = False, publishedAtRequired = False, skipTopCount = N \<rparr>"
  by (simp add: normalizeSourceRules_def getProp_def normalizeTermList_def normalizeBoolean_def
      normalizeSkipTopCount_def)

text \<open>
  C4. When \<open>skipTopCount = N\<close> is the only constraint (the rule set is
  \<open>{skipTopCount: N}\<close>, or it normalizes to that), \<open>applySourceRules\<close> drops the
  leading \<open>min N L\<close> articles of a list of length \<open>L\<close> and filters nothing: \<open>L - min N L\<close> articles remain, \<open>skippedTopCount = min N L\<close> and
  \<open>ruleFilteredCount = 0\<close>; on ten articles with \<open>N \<le> 10\<close>, \<open>10 - N\<close> remain.
\<close>

theorem applySourceRules_skip_only:
  assumes "rulesInput = Some [(''skipTopCount'', JNum (Finite (of_nat N)))] \<or>
     normalizeSourceRules rulesInput =
     \<lparr> titleIncludes = [], titleExcludes = [], urlIncludes = [], urlExcludes = [],
       descriptionRequired = False, publishedAtRequired = False, skipTopCount = N \<rparr>"
  shows "keptArticles (applySourceRules arts rulesInput) =
           drop (min N (length arts)) arts \<and>
         length (keptArticles (applySourceRules arts rulesInput)) =
           length arts - min N (length arts) \<and>
         skippedTopCount (applySourceRules arts rulesInput) = min N (length arts) \<and>
         ruleFilteredCount (applySourceRules arts rulesInput) = 0 \<and>
         (length arts = 10 \<and> N \<le> 10 \<longrightarrow>
            length (keptArticles (applySourceRules arts rulesInput)) = 10 - N)"
proof -
  let ?rules = "normalizeSourceRules rulesInput"
  from assms have nr: "?rules =
     \<lparr> titleIncludes = [], titleExcludes = [], urlIncludes = [], urlExcludes = [],
       descriptionRequired = False, publishedAtRequired = False, skipTopCount = N \<rparr>"
    using normalize_skip_rule by auto
  have m: "\<And>a. matchesArticle a ?rules"
    using nr by (intro inactive_matches) simp_all
  have s: "skipTopCount ?rules = N" using nr by simp
  show ?thesis
  proof (cases "hasActiveRules ?rules")
    case True
    then show ?thesis by (auto simp: applySourceRules_def Let_def m s)
  next
    case False
    then have "N = 0" using s by (simp add: hasActiveRules_def)
    with False show ?thesis by (simp add: applySourceRules_def)
  qed
qed

theorem applySourceRules_skip_only_witness:
  "skipThreeRules = Some [(''skipTopCount'', JNum (Finite (of_nat 3)))] \<and>
   length tenArticles = 10 \<and>
   keptArticles (applySourceRules tenArticles skipThreeRules) = drop 3 tenArticles \<and>
   length (keptArticles (applySourceRules tenArticles skipThreeRules)) = 7 \<and>
   skippedTopCount (applySourceRules tenArticles skipThreeRules) = 3 \<and>
   ruleFilteredCount (applySourceRules tenArticles skipThreeRules) = 0"
proof -
  have l: "length tenArticles = 10" by (simp add: tenArticles_def)
  have r: "skipThreeRules = Some [(''skipTopCount'', JNum (Finite (of_nat 3)))]"
    by (simp add: skipThreeRules_def)
  show ?thesis
    using applySourceRules_skip_only [of skipThreeRules 3 tenArticles] l r
    by simp
qed

text \<open>
  C5, as amended. After the leading skip, \<open>applySourceRules\<close> keeps exactly the articles
  whose title contains every \<open>titleIncludes\<close> term and no \<open>titleExcludes\<close> term, whose
  URL contains every \<open>urlIncludes\<close> term and no \<open>urlExcludes\<close> term (case ignored), and
  whose description and publish timestamp, when the flag asks for them, have a
  character that is not white space. \<open>ruleFilteredCount\<close> is the number of articles
  after the skip that fail this, and \<open>filteredOutCount\<close> is \<open>skippedTopCount\<close> plus
  \<open>ruleFilteredCount\<close>.
\<close>

theorem applySourceRules_keeps_matching:
  "keptArticles (applySourceRules arts rulesInput) =
     filter (\<lambda>a. ruleKeeps a (normalizeSourceRules rulesInput))
       (drop (skippedTopCount (applySourceRules arts rulesInput)) arts) \<and>
   ruleFilteredCount (applySourceRules arts rulesInput) =
     length (filter (\<lambda>a. \<not> ruleKeeps a (normalizeSourceRules rulesInput))
       (drop (skippedTopCount (applySourceRules arts rulesInput)) arts)) \<and>
   skippedTopCount (applySourceRules arts rulesInput) =
     min (skipTopCount (normalizeSourceRules rulesInput)) (length arts) \<and>
   filteredOutCount (applySourceRules arts rulesInput) =
     skippedTopCount (applySourceRules arts rulesInput) +
     ruleFilteredCount (applySourceRules arts rulesInput)"
proof (cases "hasActiveRules (normalizeSourceRules rulesInput)")
  case True
  then show ?thesis
    by (simp add: applySourceRules_def Let_def matchesArticle_ruleKeeps length_filter_complement)
next
  case False
  then have k: "\<And>a. ruleKeeps a (normalizeSourceRules rulesInput) = True"
    by (simp add: hasActiveRules_def ruleKeeps_def)
  from False show ?thesis by (simp add: applySourceRules_def k hasActiveRules_def)
qed

theorem applySourceRules_keeps_matching_witness:
  "ruleKeeps blankDescriptionArticle (normalizeSourceRules sponsoredRules) \<and>
   \<not> ruleKeeps sponsoredArticle (normalizeSourceRules sponsoredRules) \<and>
   keptArticles (applySourceRules [sponsoredArticle, blankDescriptionArticle] sponsoredRules) =
     [blankDescriptionArticle] \<and>
   ruleFilteredCount (applySourceRules [sponsoredArticle, blankDescriptionArticle] sponsoredRules) = 1 \<and>
   skippedTopCount (applySourceRules [sponsoredArticle, blankDescriptionArticle] sponsoredRules) = 0 \<and>
   filteredOutCount (applySourceRules [sponsoredArticle, blankDescriptionArticle] sponsoredRules) = 1"
proof -
  have a: "ruleKeeps blankDescriptionArticle (normalizeSourceRules sponsoredRules)"
    by code_simp
  have b: "\<not> ruleKeeps sponsoredArticle (normalizeSourceRules sponsoredRules)"
    by code_simp
  have s: "skipTopCount (normalizeSourceRules sponsoredRules) = 0"
    by (simp add: normalize_sponsoredRules)
  show ?thesis
    using applySourceRules_keeps_matching
      [of "[sponsoredArticle, blankDescriptionArticle]" sponsoredRules] a b s
    by simp
qed

text \<open>
  C5 as stated fails: an article whose description is one space has a description that
  is not empty, yet with \<open>descriptionRequired\<close> the rule engine drops it.
\<close>

theorem applySourceRules_blank_description_counterexample:
  "claimedKeeps blankDescriptionArticle (normalizeSourceRules descriptionRequiredRules) \<and>
   hasActiveRules (normalizeSourceRules descriptionRequiredRules) \<and>
   keptArticles (applySourceRules [blankDescriptionArticle] descriptionRequiredRules) = []"
  by (simp add: normalize_descriptionRequiredRules claimedKeeps_def blankDescriptionArticle_def
      hasActiveRules_def applySourceRules_def matchesArticle_def
      includesAll_def includesAny_def isPresent_def trim_def isWhitespace_def)

text \<open>
  C10. Whatever the rule input, the list that \<open>applySourceRules\<close> returns is a
  subsequence of the input list (the survivors are input articles, in their order), and
  the input length is the output length plus \<open>filteredOutCount\<close>.
\<close>

theorem applySourceRules_subsequence:
  "subseq (keptArticles (applySourceRules arts rulesInput)) arts \<and>
   length arts =
     length (keptArticles (applySourceRules arts rulesInput)) +
     filteredOutCount (applySourceRules arts rulesInput)"
proof (cases "hasActiveRules (normalizeSourceRules rulesInput)")
  case False
  then show ?thesis by (simp add: applySourceRules_def)
next
  case True
  let ?rules = "normalizeSourceRules rulesInput"
  let ?k = "min (skipTopCount ?rules) (length arts)"
  let ?after = "drop ?k arts"
  let ?kept = "filter (\<lambda>a. matchesArticle a ?rules) ?after"
  have "subseq ?kept ?after" by simp
  moreover have "subseq ?after arts" by (rule suffix_imp_subseq) (rule suffix_drop)
  ultimately have "subseq ?kept arts" by (rule subseq_order.order_trans)
  moreover have "length ?kept \<le> length ?after" by (rule length_filter_le)
  moreover have "length ?after = length arts - ?k" by simp
  ultimately show ?thesis using True
    by (simp add: applySourceRules_def Let_def)
qed

theorem applySourceRules_subsequence_witness:
  "subseq (keptArticles (applySourceRules tenArticles malformedRules)) tenArticles \<and>
   length tenArticles =
     length (keptArticles (applySourceRules tenArticles malformedRules)) +
     filteredOutCount (applySourceRules tenArticles malformedRules) \<and>
   subseq (keptArticles (applySourceRules [sponsoredArticle, blankDescriptionArticle] sponsoredRules))
     [sponsoredArticle, blankDescriptionArticle] \<and>
   length [sponsoredArticle, blankDescriptionArticle] =
     length (keptArticles (applySourceRules [sponsoredArticle, blankDescriptionArticle] sponsoredRules)) +
     filteredOutCount (applySourceRules [sponsoredArticle, blankDescriptionArticle] sponsoredRules)"
  using applySourceRules_subsequence [of tenArticles malformedRules]
    applySourceRules_subsequence [of "[sponsoredArticle, blankDescriptionArticle]" sponsoredRules]
  by simp

section \<open>Properties of deduplication\<close>

lemma find_filter_implied:
  "(\<And>b. P b \<Longrightarrow> Q b) \<Longrightarrow> find P (filter Q xs) = find P xs"
  by (induction xs) auto

lemma set_firstWins: "set (firstWins xs) \<subseteq> set xs"
  by (induction xs rule: firstWins.induct) auto

lemma distinct_firstWins: "distinct (map url (firstWins xs))"
proof (induction xs rule: firstWins.induct)
  case 1
  then show ?case by simp
next
  case (2 a as)
  have "url a \<notin> url ` set (firstWins (filter (\<lambda>b. url b \<noteq> url a) as))"
    using set_firstWins[of "filter (\<lambda>b. url b \<noteq> url a) as"] by auto
  with 2 show ?case by simp
qed

lemma firstWins_find:
  "a \<in> set (firstWins xs) \<Longrightarrow> find (\<lambda>b. url b = url a) xs = Some a"
proof (induction xs rule: firstWins.induct)
  case 1
  then show ?case by simp
next
  case (2 x xs)
  show ?case
  proof (cases "a = x")
    case True
    then show ?thesis by simp
  next
    case False
    with 2 have mem: "a \<in> set (firstWins (filter (\<lambda>b. url b \<noteq> url x) xs))" by simp
    then have "a \<in> set (filter (\<lambda>b. url b \<noteq> url x) xs)" using set_firstWins by blast
    then have ne: "url a \<noteq> url x" by simp
    from 2 mem have "find (\<lambda>b. url b = url a) (filter (\<lambda>b. url b \<noteq> url x) xs) = Some a"
      by simp
    moreover have "find (\<lambda>b. url b = url a) (filter (\<lambda>b. url b \<noteq> url x) xs) =
        find (\<lambda>b. url b = url a) xs"
      using ne by (intro find_filter_implied) simp
    ultimately show ?thesis using ne by simp
  qed
qed

lemma firstWins_Nil: "firstWins xs = [] \<longleftrightarrow> xs = []"
  by (cases xs) simp_all

lemma firstWins_append:
  "distinct (map url xs) \<Longrightarrow>
   firstWins (xs @ ys) = xs @ firstWins (filter (\<lambda>b. url b \<notin> url ` set xs) ys)"
proof (induction xs arbitrary: ys)
  case Nil
  then show ?case by simp
next
  case (Cons a xs)
  from Cons.prems have "url a \<notin> url ` set xs" by simp
  then have "\<forall>b \<in> set xs. url b \<noteq> url a" by (metis imageI)
  then have keep: "filter (\<lambda>b. url b \<noteq> url a) xs = xs"
    by (simp add: filter_id_conv)
  have "firstWins ((a # xs) @ ys) =
      a # firstWins (xs @ filter (\<lambda>b. url b \<noteq> url a) ys)"
    by (simp add: keep)
  also have "\<dots> = a # xs @ firstWins (filter (\<lambda>b. url b \<notin> url ` set xs)
      (filter (\<lambda>b. url b \<noteq> url a) ys))"
    using Cons by simp
  also have "filter (\<lambda>b. url b \<notin> url ` set xs) (filter (\<lambda>b. url b \<noteq> url a) ys) =
      filter (\<lambda>b. url b \<notin> url ` set (a # xs)) ys"
    by (auto intro: filter_cong)
  finally show ?case by simp
qed

lemma uniqueLoop_firstWins:
  assumes "\<forall>(k, v) \<in> set byUrl. k = url v"
  shows "map snd (uniqueLoop byUrl xs) =
           map snd byUrl @ firstWins (filter (\<lambda>b. url b \<notin> fst ` set byUrl) xs)"
  using assms
proof (induction xs arbitrary: byUrl)
  case Nil
  then show ?case by simp
next
  case (Cons a xs)
  show ?case
  proof (cases "url a \<in> fst ` set byUrl")
    case True
    then obtain y where "map_of byUrl (url a) = Some y"
      by (cases "map_of byUrl (url a)") (simp_all add: map_of_eq_None_iff)
    with True Cons show ?thesis by simp
  next
    case False
    then have none: "map_of byUrl (url a) = None" by (simp add: map_of_eq_None_iff)
    let ?acc = "byUrl @ [(url a, a)]"
    have inv: "\<forall>(k, v) \<in> set ?acc. k = url v" using Cons.prems by auto
    have "map snd (uniqueLoop byUrl (a # xs)) = map snd (uniqueLoop ?acc xs)"
      using none by simp
    also have "\<dots> = map snd ?acc @ firstWins (filter (\<lambda>b. url b \<notin> fst ` set ?acc) xs)"
      using inv by (rule Cons.IH)
    also have "filter (\<lambda>b. url b \<notin> fst ` set ?acc) xs =
        filter (\<lambda>b. url b \<noteq> url a) (filter (\<lambda>b. url b \<notin> fst ` set byUrl) xs)"
      by (auto intro: filter_cong)
    finally show ?thesis using False by simp
  qed
qed

lemma uniqueArticles_firstWins: "uniqueArticles xs = take MAX_ARTICLES (firstWins xs)"
  using uniqueLoop_firstWins[of "[]" xs] by (simp add: uniqueArticles_def)

lemma length_uniqueArticles: "length (uniqueArticles xs) \<le> MAX_ARTICLES"
  by (simp add: uniqueArticles_firstWins)

lemma distinct_uniqueArticles: "distinct (map url (uniqueArticles xs))"
  using distinct_firstWins[of xs]
  by (simp add: uniqueArticles_firstWins take_map[symmetric])

lemma uniqueArticles_find:
  "a \<in> set (uniqueArticles xs) \<Longrightarrow> find (\<lambda>b. url b = url a) xs = Some a"
  by (auto simp: uniqueArticles_firstWins dest: in_set_takeD firstWins_find)

lemma uniqueArticles_Nil: "uniqueArticles xs = [] \<longleftrightarrow> xs = []"
  by (simp add: uniqueArticles_firstWins firstWins_Nil MAX_ARTICLES_def)

lemma set_uniqueArticles: "set (uniqueArticles xs) \<subseteq> set xs"
  using set_firstWins[of xs] by (auto simp: uniqueArticles_firstWins dest: in_set_takeD)

lemma uniqueArticles_prefix:
  assumes "distinct (map url xs)" "length xs \<le> MAX_ARTICLES"
  shows "prefix xs (uniqueArticles (xs @ ys))"
proof -
  have "uniqueArticles (xs @ ys) =
      take MAX_ARTICLES (xs @ firstWins (filter (\<lambda>b. url b \<notin> url ` set xs) ys))"
    using assms(1) by (simp add: uniqueArticles_firstWins firstWins_append)
  also have "\<dots> = xs @ take (MAX_ARTICLES - length xs)
      (firstWins (filter (\<lambda>b. url b \<notin> url ` set xs) ys))"
    using assms(2) by simp
  finally show ?thesis by simp
qed

lemma uniqueArticles_append_members:
  assumes "distinct (map url xs)" "a \<in> set (uniqueArticles (xs @ ys))"
  shows "a \<in> set xs \<or> (a \<in> set ys \<and> url a \<notin> url ` set xs)"
proof -
  from assms(2) have "a \<in> set (firstWins (xs @ ys))"
    by (auto simp: uniqueArticles_firstWins dest: in_set_takeD)
  then have "a \<in> set xs \<or> a \<in> set (firstWins (filter (\<lambda>b. url b \<notin> url ` set xs) ys))"
    using assms(1) by (simp add: firstWins_append)
  then show ?thesis using set_firstWins[of "filter (\<lambda>b. url b \<notin> url ` set xs) ys"] by auto
qed

section \<open>Properties of feed discovery\<close>

lemma tryFeedLink_Some:
  assumes "tryFeedLink env doc src extractor feedLink = Some feed"
  shows "\<exists>extracted. extractor feedLink = ExtractorObject extracted \<and>
           nf_articles feed = normalizedEntriesOf env extracted \<and>
           normalizedEntriesOf env extracted \<noteq> []"
  using assms
  by (auto simp: tryFeedLink_def Let_def split: ExtractorOutcome.splits if_splits option.splits)

lemma tryFeedLink_usable:
  assumes "parseUrl env src \<noteq> None"
    and "pickExtractor (feedExtractorLib env) = Some extractor"
  shows "tryFeedLink env doc src extractor feedLink \<noteq> None \<longleftrightarrow> usableCandidate env feedLink"
  using assms
  by (auto simp: tryFeedLink_def usableCandidate_def Let_def
      split: ExtractorOutcome.splits if_splits option.splits)

lemma tryFeedLinks_all_fail:
  "(\<forall>l \<in> set links. tryFeedLink env doc src extractor l = None) \<Longrightarrow>
   tryFeedLinks env doc src extractor links = (links, None)"
  by (induction links) simp_all

lemma tryFeedLinks_None:
  "snd (tryFeedLinks env doc src extractor links) = None \<longleftrightarrow>
   (\<forall>l \<in> set links. tryFeedLink env doc src extractor l = None)"
  by (induction links) (auto split: option.splits prod.splits)

lemma tryFeedLinks_first:
  "snd (tryFeedLinks env doc src extractor links) = Some feed \<Longrightarrow>
   \<exists>i < length links.
     tryFeedLink env doc src extractor (links ! i) = Some feed \<and>
     (\<forall>j < i. tryFeedLink env doc src extractor (links ! j) = None) \<and>
     fst (tryFeedLinks env doc src extractor links) = take (Suc i) links"
proof (induction links)
  case Nil
  then show ?case by simp
next
  case (Cons l rest)
  show ?case
  proof (cases "tryFeedLink env doc src extractor l")
    case (Some f)
    with Cons.prems have "f = feed" by simp
    with Some have "tryFeedLink env doc src extractor ((l # rest) ! 0) = Some feed \<and>
        (\<forall>j < 0. tryFeedLink env doc src extractor ((l # rest) ! j) = None) \<and>
        fst (tryFeedLinks env doc src extractor (l # rest)) = take (Suc 0) (l # rest)"
      by simp
    then show ?thesis by blast
  next
    case None
    with Cons.prems have "snd (tryFeedLinks env doc src extractor rest) = Some feed"
      by (simp split: prod.splits)
    from Cons.IH[OF this] obtain i where i: "i < length rest"
      "tryFeedLink env doc src extractor (rest ! i) = Some feed"
      "\<forall>j < i. tryFeedLink env doc src extractor (rest ! j) = None"
      "fst (tryFeedLinks env doc src extractor rest) = take (Suc i) rest"
      by blast
    have "\<forall>j < Suc i. tryFeedLink env doc src extractor ((l # rest) ! j) = None"
    proof (intro allI impI)
      fix j assume "j < Suc i"
      then show "tryFeedLink env doc src extractor ((l # rest) ! j) = None"
        using None i(3) by (cases j) simp_all
    qed
    moreover have "fst (tryFeedLinks env doc src extractor (l # rest)) = take (Suc (Suc i)) (l # rest)"
      using None i(4) by (cases "tryFeedLinks env doc src extractor rest") simp
    ultimately have "Suc i < length (l # rest) \<and>
        tryFeedLink env doc src extractor ((l # rest) ! Suc i) = Some feed \<and>
        (\<forall>j < Suc i. tryFeedLink env doc src extractor ((l # rest) ! j) = None) \<and>
        fst (tryFeedLinks env doc src extractor (l # rest)) = take (Suc (Suc i)) (l # rest)"
      using i(1) i(2) by simp
    then show ?thesis by blast
  qed
qed

lemma tryAutoDetectFeeds_articles:
  assumes "tryAutoDetectFeeds env src html = (probed, Some feed)"
  shows "\<exists>extracted. nf_articles feed = normalizedEntriesOf env extracted \<and>
           nf_articles feed \<noteq> []"
proof -
  from assms obtain extractor where
    r: "tryFeedLinks env (load env html) src extractor
          (detectFeedLinks env (load env html) src) = (probed, Some feed)"
    by (auto simp: tryAutoDetectFeeds_def Let_def split: option.splits if_splits)
  then have "snd (tryFeedLinks env (load env html) src extractor
          (detectFeedLinks env (load env html) src)) = Some feed" by simp
  from tryFeedLinks_first[OF this] obtain l where
    "tryFeedLink env (load env html) src extractor l = Some feed" by blast
  from tryFeedLink_Some[OF this] show ?thesis by auto
qed

section \<open>Properties of the heuristic extractor\<close>

lemma isHttpUrl_parse:
  "isHttpUrl env u \<Longrightarrow>
   \<exists>parsed. parseUrl env u = Some parsed \<and>
     (protocol parsed = ''http:'' \<or> protocol parsed = ''https:'')"
  by (auto simp: isHttpUrl_def split: option.splits)

lemma distinct_extractFromContainers:
  "distinct (map url (extractFromContainers env doc src))"
  by (simp add: extractFromContainers_def distinct_uniqueArticles)

lemma length_extractFromContainers:
  "length (extractFromContainers env doc src) \<le> MAX_ARTICLES"
  by (simp add: extractFromContainers_def length_uniqueArticles)

lemma extractHeuristically_found:
  assumes "extractHeuristically env src html = Inr feed"
  shows "nf_articles feed =
           (if length (extractFromContainers env (load env html) src) \<ge> 2
            then extractFromContainers env (load env html) src
            else uniqueArticles (extractFromContainers env (load env html) src @
                                 extractFromLinksByPattern env (load env html) src)) \<and>
         nf_articles feed \<noteq> []"
  using assms
  by (auto simp: extractHeuristically_def Let_def split: option.splits if_splits)

lemma extractHeuristically_succeeds:
  assumes "parseUrl env src \<noteq> None"
    and "extractFromContainers env (load env html) src \<noteq> [] \<or>
         extractFromLinksByPattern env (load env html) src \<noteq> []"
  shows "\<exists>feed. extractHeuristically env src html = Inr feed"
proof -
  let ?A = "extractFromContainers env (load env html) src"
  let ?B = "extractFromLinksByPattern env (load env html) src"
  have "?A @ ?B \<noteq> []" using assms(2) by auto
  then have u: "uniqueArticles (?A @ ?B) \<noteq> []" by (simp only: uniqueArticles_Nil not_False_eq_True)
  have a: "2 \<le> length ?A \<Longrightarrow> ?A \<noteq> []" by auto
  from assms(1) obtain p where p: "parseUrl env src = Some p" by auto
  show ?thesis
    using u a p
    by (auto simp: extractHeuristically_def Let_def split: option.splits if_splits)
qed

lemma extractHeuristically_fails:
  assumes "parseUrl env src \<noteq> None"
    and "extractFromContainers env (load env html) src = []"
    and "extractFromLinksByPattern env (load env html) src = []"
  shows "extractHeuristically env src html = Inl ExtractionError"
proof -
  have "uniqueArticles [] = []" by (simp add: uniqueArticles_Nil)
  with assms show ?thesis
    by (auto simp: extractHeuristically_def Let_def split: option.splits)
qed

lemma isHttpUrl_load: "isHttpUrl (env\<lparr>load := f\<rparr>) = isHttpUrl env"
  by (rule ext) (simp add: isHttpUrl_def)

lemma toAbsoluteUrl_load: "toAbsoluteUrl (env\<lparr>load := f\<rparr>) = toAbsoluteUrl env"
  by (intro ext) (simp add: toAbsoluteUrl_def split: option.splits)

lemma extractDateFromElement_load:
  "extractDateFromElement (env\<lparr>load := f\<rparr>) = extractDateFromElement env"
  by (rule ext) (simp add: extractDateFromElement_def normalizeDate_def split: option.splits)

lemma containerArticle_load [simp]:
  "containerArticle (env\<lparr>load := f\<rparr>) src node = containerArticle env src node"
  unfolding containerArticle_def isHttpUrl_load toAbsoluteUrl_load extractDateFromElement_load
  by (rule refl)

lemma containerLoop_load [simp]:
  "containerLoop (env\<lparr>load := f\<rparr>) src cands nodes = containerLoop env src cands nodes"
  by (induction nodes arbitrary: cands) simp_all

lemma extractHeuristically_ignores_anchors:
  assumes "length (extractFromContainers env (load env html) src) \<ge> 2"
  shows "extractHeuristically
           (env\<lparr>load := (\<lambda>h. (load env h)\<lparr>anchorElements := anchors\<rparr>)\<rparr>) src html =
         extractHeuristically env src html"
  using assms
  by (auto simp: extractHeuristically_def extractFromContainers_def Let_def
      split: option.splits)

section \<open>Properties of the synthesizer\<close>

lemma articleItem_fields:
  "itemId (fst (articleItem env n a)) = url a \<and>
   itemLink (fst (articleItem env n a)) = url a \<and>
   itemTitle (fst (articleItem env n a)) = title a \<and>
   itemDescription (fst (articleItem env n a)) =
     (case description a of None \<Rightarrow> [] | Some d \<Rightarrow> d) \<and>
   itemAuthor (fst (articleItem env n a)) =
     (case truthy (author a) of None \<Rightarrow> None | Some w \<Rightarrow> Some [\<lparr> name = w \<rparr>])"
  by (simp add: articleItem_def split: option.splits prod.splits)

lemma articleItem_date:
  "(case truthy (publishedAt a) of
      None \<Rightarrow> (\<exists>k \<ge> n. itemDate (fst (articleItem env n a)) = now env k)
    | Some p \<Rightarrow>
        (case parseDate env p of
           Some t \<Rightarrow> itemDate (fst (articleItem env n a)) = t
         | None \<Rightarrow> (\<exists>k \<ge> n. itemDate (fst (articleItem env n a)) = now env k)))"
  by (auto simp: articleItem_def split: option.splits prod.splits)

lemma articleItem_counter: "n \<le> snd (articleItem env n a)"
  by (auto simp: articleItem_def split: option.splits prod.splits)

lemma length_addItems: "length (addItems env n xs) = length xs"
  by (induction xs arbitrary: n) (simp_all split: prod.splits)

lemma addItems_nth:
  "i < length xs \<Longrightarrow>
   \<exists>m \<ge> n. addItems env n xs ! i = fst (articleItem env m (xs ! i))"
proof (induction xs arbitrary: n i)
  case Nil
  then show ?case by simp
next
  case (Cons a xs)
  obtain item n' where it: "articleItem env n a = (item, n')" by (cases "articleItem env n a")
  then have le: "n \<le> n'" using articleItem_counter[of n env a] by simp
  show ?case
  proof (cases i)
    case 0
    with it show ?thesis by (intro exI[of _ n]) simp
  next
    case (Suc j)
    with Cons.prems have "j < length xs" by simp
    from Cons.IH[OF this, of n'] obtain m where "m \<ge> n'"
      "addItems env n' xs ! j = fst (articleItem env m (xs ! j))" by blast
    with it Suc le show ?thesis by (intro exI[of _ m]) simp
  qed
qed

section \<open>Properties of the orchestrator\<close>

lemma feedResultOf_Inr:
  "feedResultOf env u feed m = Inr r \<Longrightarrow>
   articles r = nf_articles feed \<and> usedMethod r = m \<and>
   feedTitle r = nf_title feed \<and> feedDescription r = nf_description feed"
  by (auto simp: feedResultOf_def split: sum.splits)

lemma feedResultOf_succeeds:
  "parseUrl env u \<noteq> None \<Longrightarrow> \<exists>r. feedResultOf env u feed m = Inr r"
  by (auto simp: feedResultOf_def generateRssXml_def generateRssFeed_def split: sum.splits)

lemma extractFeed_Inr:
  assumes "extractFeed env u = (requests, Inr r)"
  shows "\<exists>html probed. fetchHtml env u = Inr html \<and> isHttpUrl env u \<and>
     ((\<exists>feed. tryAutoDetectFeeds env u html = (probed, Some feed) \<and>
              feedResultOf env u feed RssAutoDetect = Inr r) \<or>
      (\<exists>feed. tryAutoDetectFeeds env u html = (probed, None) \<and>
              extractHeuristically env u html = Inr feed \<and>
              feedResultOf env u feed Heuristic = Inr r))"
  using assms
  by (auto simp: extractFeed_def split: if_splits option.splits sum.splits prod.splits)

section \<open>The example inputs, evaluated\<close>

lemmas rx_eval =
  rxTest_def rxMatches_def rxSeqs_def rxAlts_def rxLitI_def rxLit_def rxCharI_def rxChar_def
  rxAny_def rxBos_def rxEos_def rxOpt_def rxRep_def rxDigit_def lowerChar_def

lemma no_extension_n: "\<not> rxTest fileExtensionPattern ''/news/n''"
  by (simp add: rx_eval fileExtensionPattern_def)

lemma no_extension_c: "\<not> rxTest fileExtensionPattern ''/news/c''"
  by (simp add: rx_eval fileExtensionPattern_def)

lemma section_n: "rxTest sectionPattern ''https://example.com/news/n''"
  by (simp add: rx_eval sectionPattern_def)

lemma section_c: "rxTest sectionPattern ''https://example.com/news/c''"
  by (simp add: rx_eval sectionPattern_def)

lemma likely_n: "isLikelyArticleUrl mixedWorld ''https://example.com/news/n'' exampleUrl"
  by (simp add: isLikelyArticleUrl_def mixedWorld_def feedWorld_def exampleParseUrl_def
      exampleUrl_def toLowerCase_def lowerChar_def no_extension_n section_n suffix_def)

lemma likely_c: "isLikelyArticleUrl mixedWorld ''https://example.com/news/c'' exampleUrl"
  by (simp add: isLikelyArticleUrl_def mixedWorld_def feedWorld_def exampleParseUrl_def
      exampleUrl_def toLowerCase_def lowerChar_def no_extension_c section_c suffix_def)

lemma feedWorld_extractFeed:
  "extractFeed feedWorld exampleUrl =
     ([exampleUrl, ''https://example.com/broken.xml'', ''https://example.com/empty.xml'',
       ''https://example.com/feed.xml''], Inr feedWorldResult)"
  by code_simp

lemma pageWorld_extractFeed:
  "extractFeed pageWorld exampleUrl = ([exampleUrl], Inr pageWorldResult)"
  by code_simp

lemma emptyWorld_facts:
  "isHttpUrl emptyWorld exampleUrl"
  "fetchHtml emptyWorld exampleUrl = Inr exampleHtml"
  "snd (tryAutoDetectFeeds emptyWorld exampleUrl exampleHtml) = None"
  "extractFromContainers emptyWorld (load emptyWorld exampleHtml) exampleUrl = []"
  "extractFromLinksByPattern emptyWorld (load emptyWorld exampleHtml) exampleUrl = []"
  by code_simp+

lemma pageWorld_facts:
  "isHttpUrl pageWorld exampleUrl"
  "fetchHtml pageWorld exampleUrl = Inr exampleHtml"
  "extractFromContainers pageWorld (load pageWorld exampleHtml) exampleUrl =
     [sponsoredPost, realNews]"
  by code_simp+

lemma feedWorld_facts:
  "parseUrl feedWorld exampleUrl \<noteq> None"
  "\<not> isHttpUrl feedWorld ''ftp://example.com/''"
  "\<not> isHttpUrl feedWorld ''nonsense''"
  "detectFeedLinks feedWorld (load feedWorld exampleHtml) exampleUrl =
     [''https://example.com/broken.xml'', ''https://example.com/empty.xml'',
      ''https://example.com/feed.xml'', ''https://example.com/later.xml'']"
  "tryAutoDetectFeeds feedWorld exampleUrl exampleHtml =
     ([''https://example.com/broken.xml'', ''https://example.com/empty.xml'',
       ''https://example.com/feed.xml''],
      Some \<lparr> nf_title = ''Example Feed'', nf_description = ''An example site'',
             nf_articles = [alphaArticle, betaArticle] \<rparr>)"
  by code_simp+

lemma pageWorld_generateRssFeed:
  "generateRssFeed pageWorld exampleUrl ''Example Site''
     ''Example Site (auto-generated feed)'' [sponsoredPost, realNews] = Inr pageFeed"
  by code_simp

lemma pageWorld_handler:
  "generateFeedHandler pageWorld storedSponsoredRules (Some (''  '' @ exampleUrl)) =
     ([exampleUrl], Success pageWorldResult)"
  by code_simp

lemma sponsored_filtered:
  "map ra_title (keptArticles
     (applySourceRules (map asRuleApplicable (articles pageWorldResult)) sponsoredRules)) =
   [Some ''Real news'']"
  by code_simp

lemma mixedWorld_containers:
  "extractFromContainers mixedWorld (load mixedWorld exampleHtml) exampleUrl = [nuStory]"
  by code_simp

lemma mixedWorld_anchor_candidates:
  "anchorLoop mixedWorld exampleUrl [] (anchorElements (load mixedWorld exampleHtml)) =
     [nuStoryAgain, gammaArticle]"
proof -
  have r: "resolveUrl mixedWorld = exampleResolveUrl" "parseUrl mixedWorld = exampleParseUrl"
    by (simp_all add: mixedWorld_def feedWorld_def)
  have a1: "anchorArticle mixedWorld exampleUrl
      \<lparr> anchorHref = Some ''/news/n'', anchorText = ''Nu story again'',
        closestContainer = noQueries \<rparr> = Some nuStoryAgain"
    using likely_n
    by (simp add: anchorArticle_def toAbsoluteUrl_def truthy_def r exampleResolveUrl_def
        isHttpUrl_def exampleParseUrl_def cleanText_def trim_def isWhitespace_def
        noQueries_def extractDateFromElement_def extractAuthorFromElement_def nullish_def
        normalizeDate_def orElse_def nuStoryAgain_def)
  have a2: "anchorArticle mixedWorld exampleUrl
      \<lparr> anchorHref = Some ''mailto:nobody'', anchorText = ''Write to us'',
        closestContainer = noQueries \<rparr> = None"
    by (simp add: anchorArticle_def toAbsoluteUrl_def truthy_def r exampleResolveUrl_def)
  have a3: "anchorArticle mixedWorld exampleUrl
      \<lparr> anchorHref = Some ''/news/c'', anchorText = ''Gamma'',
        closestContainer = noQueries \<rparr> = Some gammaArticle"
    using likely_c
    by (simp add: anchorArticle_def toAbsoluteUrl_def truthy_def r exampleResolveUrl_def
        isHttpUrl_def exampleParseUrl_def cleanText_def trim_def isWhitespace_def
        noQueries_def extractDateFromElement_def extractAuthorFromElement_def nullish_def
        normalizeDate_def orElse_def gammaArticle_def)
  have d: "anchorElements (load mixedWorld exampleHtml) = anchorElements mixedDoc"
    by (simp add: mixedWorld_def)
  show ?thesis
    by (simp add: d mixedDoc_def a1 a2 a3 MAX_ARTICLES_def)
qed

lemma mixedWorld_links:
  "extractFromLinksByPattern mixedWorld (load mixedWorld exampleHtml) exampleUrl =
     [nuStoryAgain, gammaArticle]"
proof -
  have "uniqueArticles [nuStoryAgain, gammaArticle] = [nuStoryAgain, gammaArticle]"
    by code_simp
  then show ?thesis
    by (simp add: extractFromLinksByPattern_def mixedWorld_anchor_candidates)
qed

lemma mixedWorld_extractHeuristically:
  "extractHeuristically mixedWorld exampleUrl exampleHtml = Inr mixedWorldFeed"
proof -
  have u: "uniqueArticles ([nuStory] @ [nuStoryAgain, gammaArticle]) = [nuStory, gammaArticle]"
    by code_simp
  have t: "cleanText (ogSiteName (load mixedWorld exampleHtml)) = []"
    "cleanText (Some (titleText (load mixedWorld exampleHtml))) = ''Example''"
    "cleanText (metaDescription (load mixedWorld exampleHtml)) = []"
    "autoFeedSuffix = '' (auto-generated feed)''"
    by code_simp+
  show ?thesis
    using u
    by (simp add: extractHeuristically_def Let_def t mixedWorld_containers mixedWorld_links
        mixedWorldFeed_def orElse_def)
qed

lemma extractFeed_Inr_requests:
  assumes "extractFeed env u = (requests, Inr r)"
  shows "\<exists>html probed. fetchHtml env u = Inr html \<and> isHttpUrl env u \<and>
     requests = u # probed \<and>
     ((\<exists>feed. tryAutoDetectFeeds env u html = (probed, Some feed) \<and>
              feedResultOf env u feed RssAutoDetect = Inr r) \<or>
      (\<exists>feed. tryAutoDetectFeeds env u html = (probed, None) \<and>
              extractHeuristically env u html = Inr feed \<and>
              feedResultOf env u feed Heuristic = Inr r))"
  using assms
  by (auto simp: extractFeed_def split: if_splits option.splits sum.splits prod.splits)

lemma tryAutoDetectFeeds_source:
  assumes "tryAutoDetectFeeds env src html = (probed, Some feed)"
    and "parseUrl env src \<noteq> None"
  shows "\<exists>extractor extracted i.
           pickExtractor (feedExtractorLib env) = Some extractor \<and>
           i < length (detectFeedLinks env (load env html) src) \<and>
           probed = take (Suc i) (detectFeedLinks env (load env html) src) \<and>
           extractor (detectFeedLinks env (load env html) src ! i) = ExtractorObject extracted \<and>
           (\<forall>j < i. \<not> usableCandidate env (detectFeedLinks env (load env html) src ! j)) \<and>
           nf_articles feed = normalizedEntriesOf env extracted"
proof -
  let ?doc = "load env html"
  let ?links = "detectFeedLinks env ?doc src"
  from assms(1) obtain extractor where
    p: "pickExtractor (feedExtractorLib env) = Some extractor" and
    r: "tryFeedLinks env ?doc src extractor ?links = (probed, Some feed)"
    by (auto simp: tryAutoDetectFeeds_def Let_def split: option.splits if_splits)
  then have "snd (tryFeedLinks env ?doc src extractor ?links) = Some feed" by simp
  from tryFeedLinks_first[OF this] obtain i where i: "i < length ?links"
    "tryFeedLink env ?doc src extractor (?links ! i) = Some feed"
    "\<forall>j < i. tryFeedLink env ?doc src extractor (?links ! j) = None"
    "fst (tryFeedLinks env ?doc src extractor ?links) = take (Suc i) ?links"
    by blast
  from tryFeedLink_Some[OF i(2)] obtain extracted where
    x: "extractor (?links ! i) = ExtractorObject extracted"
       "nf_articles feed = normalizedEntriesOf env extracted" by blast
  have v: "\<forall>j < i. \<not> usableCandidate env (?links ! j)"
  proof (intro allI impI)
    fix j assume "j < i"
    with i(3) have "tryFeedLink env ?doc src extractor (?links ! j) = None" by simp
    then show "\<not> usableCandidate env (?links ! j)"
      using tryFeedLink_usable[OF assms(2) p, of ?doc "?links ! j"] by simp
  qed
  have pr: "probed = take (Suc i) ?links" using i(4) r by simp
  from p i(1) pr x v show ?thesis by blast
qed

lemma feedWorld_candidates:
  "fetchHtml feedWorld exampleUrl = Inr exampleHtml"
  "detectFeedLinks feedWorld (load feedWorld exampleHtml) exampleUrl ! 2 =
     ''https://example.com/feed.xml''"
  "\<not> usableCandidate feedWorld ''https://example.com/broken.xml''"
  "\<not> usableCandidate feedWorld ''https://example.com/empty.xml''"
  "exampleExtractor ''https://example.com/feed.xml'' =
     ExtractorObject \<lparr> x_title = Some ''Example Feed'', x_description = None,
                       x_entries = Some exampleEntries, x_items = None \<rparr>"
  "List.map_filter (parseExtractorEntry feedWorld)
     (rawEntriesOf \<lparr> x_title = Some ''Example Feed'', x_description = None,
                     x_entries = Some exampleEntries, x_items = None \<rparr>) =
     [alphaArticle, betaArticle, alphaAgain]"
  "take 50 (firstWins [alphaArticle, betaArticle, alphaAgain]) = [alphaArticle, betaArticle]"
  "find (\<lambda>b. url b = url alphaArticle) [alphaArticle, betaArticle, alphaAgain] =
     Some alphaArticle"
  "url alphaAgain = url alphaArticle"
  by code_simp+

lemma feedWorld_pickExtractor:
  "pickExtractor (feedExtractorLib feedWorld) = Some exampleExtractor"
  by (simp add: pickExtractor_def feedWorld_def nullish_def)

lemma pageWorld_candidates:
  "containerLoop pageWorld exampleUrl [] (containerElements (load pageWorld exampleHtml)) =
     [sponsoredPost, realNews, sponsoredPost]"
  "take 50 (firstWins [sponsoredPost, realNews, sponsoredPost]) = [sponsoredPost, realNews]"
  by code_simp+

section \<open>The claims about the scraper\<close>

text \<open>
  C1. When \<open>extractFeed\<close> succeeds, the article list of its result has at most 50
  elements and pairwise distinct URLs. It is the deduplication of the candidates of the
  path taken, cut at 50, and of the candidates that share a URL the first is the one
  that stays. On the feed-discovery path the candidates are the parsed entries of what
  the extractor returned for the last feed link requested, which is the first usable
  one; on the heuristic path they are the container articles when the containers
  yield two or more, and the container articles followed by the link articles
  otherwise.
\<close>

theorem extractFeed_unique_capped:
  assumes "extractFeed env u = (requests, Inr r)"
  shows "length (articles r) \<le> 50 \<and> distinct (map url (articles r)) \<and>
    (\<exists>candidates.
       articles r = take 50 (firstWins candidates) \<and>
       (\<forall>a \<in> set (articles r). find (\<lambda>b. url b = url a) candidates = Some a) \<and>
       (usedMethod r = RssAutoDetect \<longrightarrow>
          (\<exists>html extractor extracted i.
             fetchHtml env u = Inr html \<and>
             pickExtractor (feedExtractorLib env) = Some extractor \<and>
             i < length (detectFeedLinks env (load env html) u) \<and>
             requests = u # take (Suc i) (detectFeedLinks env (load env html) u) \<and>
             (\<forall>j < i. \<not> usableCandidate env (detectFeedLinks env (load env html) u ! j)) \<and>
             extractor (detectFeedLinks env (load env html) u ! i) = ExtractorObject extracted \<and>
             candidates = List.map_filter (parseExtractorEntry env) (rawEntriesOf extracted))) \<and>
       (usedMethod r = Heuristic \<longrightarrow>
          (\<exists>html. fetchHtml env u = Inr html \<and>
             (2 \<le> length (extractFromContainers env (load env html) u) \<longrightarrow>
                candidates = containerLoop env u [] (containerElements (load env html))) \<and>
             (length (extractFromContainers env (load env html) u) < 2 \<longrightarrow>
                candidates = extractFromContainers env (load env html) u @
                             extractFromLinksByPattern env (load env html) u))))"
proof -
  have spec: "\<And>c. length (uniqueArticles c) \<le> 50 \<and> distinct (map url (uniqueArticles c)) \<and>
      uniqueArticles c = take 50 (firstWins c) \<and>
      (\<forall>a \<in> set (uniqueArticles c). find (\<lambda>b. url b = url a) c = Some a)"
    using length_uniqueArticles distinct_uniqueArticles uniqueArticles_find
    by (simp add: uniqueArticles_firstWins[symmetric] MAX_ARTICLES_def[symmetric])
  from extractFeed_Inr_requests[OF assms] obtain html probed where
    h: "fetchHtml env u = Inr html" and hu: "isHttpUrl env u" and
    rq: "requests = u # probed" and
    c: "(\<exists>feed. tryAutoDetectFeeds env u html = (probed, Some feed) \<and>
              feedResultOf env u feed RssAutoDetect = Inr r) \<or>
        (\<exists>feed. tryAutoDetectFeeds env u html = (probed, None) \<and>
              extractHeuristically env u html = Inr feed \<and>
              feedResultOf env u feed Heuristic = Inr r)"
    by blast
  from hu have pu: "parseUrl env u \<noteq> None" using isHttpUrl_parse by fastforce
  from c show ?thesis
  proof
    assume "\<exists>feed. tryAutoDetectFeeds env u html = (probed, Some feed) \<and>
              feedResultOf env u feed RssAutoDetect = Inr r"
    then obtain feed where t: "tryAutoDetectFeeds env u html = (probed, Some feed)"
      and f: "feedResultOf env u feed RssAutoDetect = Inr r" by blast
    from tryAutoDetectFeeds_source[OF t pu] obtain extractor extracted i where
      s: "pickExtractor (feedExtractorLib env) = Some extractor"
         "i < length (detectFeedLinks env (load env html) u)"
         "probed = take (Suc i) (detectFeedLinks env (load env html) u)"
         "extractor (detectFeedLinks env (load env html) u ! i) = ExtractorObject extracted"
         "\<forall>j < i. \<not> usableCandidate env (detectFeedLinks env (load env html) u ! j)"
         "nf_articles feed = normalizedEntriesOf env extracted"
      by blast
    let ?c = "List.map_filter (parseExtractorEntry env) (rawEntriesOf extracted)"
    from s(6) feedResultOf_Inr[OF f] have
      a: "articles r = uniqueArticles ?c" and m: "usedMethod r = RssAutoDetect"
      by (simp_all add: normalizedEntriesOf_def)
    have tie: "\<exists>html extractor extracted i.
             fetchHtml env u = Inr html \<and>
             pickExtractor (feedExtractorLib env) = Some extractor \<and>
             i < length (detectFeedLinks env (load env html) u) \<and>
             requests = u # take (Suc i) (detectFeedLinks env (load env html) u) \<and>
             (\<forall>j < i. \<not> usableCandidate env (detectFeedLinks env (load env html) u ! j)) \<and>
             extractor (detectFeedLinks env (load env html) u ! i) = ExtractorObject extracted \<and>
             ?c = List.map_filter (parseExtractorEntry env) (rawEntriesOf extracted)"
      using h s rq by blast
    have "articles r = take 50 (firstWins ?c) \<and>
       (\<forall>a \<in> set (articles r). find (\<lambda>b. url b = url a) ?c = Some a)"
      using spec[of ?c] unfolding a[symmetric] by simp
    with tie m have "\<exists>candidates.
       articles r = take 50 (firstWins candidates) \<and>
       (\<forall>a \<in> set (articles r). find (\<lambda>b. url b = url a) candidates = Some a) \<and>
       (usedMethod r = RssAutoDetect \<longrightarrow>
          (\<exists>html extractor extracted i.
             fetchHtml env u = Inr html \<and>
             pickExtractor (feedExtractorLib env) = Some extractor \<and>
             i < length (detectFeedLinks env (load env html) u) \<and>
             requests = u # take (Suc i) (detectFeedLinks env (load env html) u) \<and>
             (\<forall>j < i. \<not> usableCandidate env (detectFeedLinks env (load env html) u ! j)) \<and>
             extractor (detectFeedLinks env (load env html) u ! i) = ExtractorObject extracted \<and>
             candidates = List.map_filter (parseExtractorEntry env) (rawEntriesOf extracted))) \<and>
       (usedMethod r = Heuristic \<longrightarrow>
          (\<exists>html. fetchHtml env u = Inr html \<and>
             (2 \<le> length (extractFromContainers env (load env html) u) \<longrightarrow>
                candidates = containerLoop env u [] (containerElements (load env html))) \<and>
             (length (extractFromContainers env (load env html) u) < 2 \<longrightarrow>
                candidates = extractFromContainers env (load env html) u @
                             extractFromLinksByPattern env (load env html) u)))"
      by (intro exI[of _ ?c]) simp
    then show ?thesis using spec[of ?c] unfolding a[symmetric] by blast
  next
    assume "\<exists>feed. tryAutoDetectFeeds env u html = (probed, None) \<and>
              extractHeuristically env u html = Inr feed \<and>
              feedResultOf env u feed Heuristic = Inr r"
    then obtain feed where e: "extractHeuristically env u html = Inr feed"
      and f: "feedResultOf env u feed Heuristic = Inr r" by blast
    let ?A = "extractFromContainers env (load env html) u"
    let ?B = "extractFromLinksByPattern env (load env html) u"
    let ?C = "containerLoop env u [] (containerElements (load env html))"
    let ?c = "if 2 \<le> length ?A then ?C else ?A @ ?B"
    from feedResultOf_Inr[OF f] have ar: "articles r = nf_articles feed"
      and m: "usedMethod r = Heuristic" by simp_all
    have a: "articles r = uniqueArticles ?c"
      using extractHeuristically_found[OF e] ar by (simp add: extractFromContainers_def)
    have tie: "\<exists>html. fetchHtml env u = Inr html \<and>
             (2 \<le> length (extractFromContainers env (load env html) u) \<longrightarrow>
                ?c = containerLoop env u [] (containerElements (load env html))) \<and>
             (length (extractFromContainers env (load env html) u) < 2 \<longrightarrow>
                ?c = extractFromContainers env (load env html) u @
                     extractFromLinksByPattern env (load env html) u)"
      using h by (intro exI[of _ html]) simp
    have "articles r = take 50 (firstWins ?c) \<and>
       (\<forall>a \<in> set (articles r). find (\<lambda>b. url b = url a) ?c = Some a)"
      using spec[of ?c] unfolding a[symmetric] by simp
    with tie m have "\<exists>candidates.
       articles r = take 50 (firstWins candidates) \<and>
       (\<forall>a \<in> set (articles r). find (\<lambda>b. url b = url a) candidates = Some a) \<and>
       (usedMethod r = RssAutoDetect \<longrightarrow>
          (\<exists>html extractor extracted i.
             fetchHtml env u = Inr html \<and>
             pickExtractor (feedExtractorLib env) = Some extractor \<and>
             i < length (detectFeedLinks env (load env html) u) \<and>
             requests = u # take (Suc i) (detectFeedLinks env (load env html) u) \<and>
             (\<forall>j < i. \<not> usableCandidate env (detectFeedLinks env (load env html) u ! j)) \<and>
             extractor (detectFeedLinks env (load env html) u ! i) = ExtractorObject extracted \<and>
             candidates = List.map_filter (parseExtractorEntry env) (rawEntriesOf extracted))) \<and>
       (usedMethod r = Heuristic \<longrightarrow>
          (\<exists>html. fetchHtml env u = Inr html \<and>
             (2 \<le> length (extractFromContainers env (load env html) u) \<longrightarrow>
                candidates = containerLoop env u [] (containerElements (load env html))) \<and>
             (length (extractFromContainers env (load env html) u) < 2 \<longrightarrow>
                candidates = extractFromContainers env (load env html) u @
                             extractFromLinksByPattern env (load env html) u)))"
      by (intro exI[of _ ?c]) simp
    then show ?thesis using spec[of ?c] unfolding a[symmetric] by blast
  qed
qed

theorem extractFeed_unique_capped_witness:
  "extractFeed feedWorld exampleUrl =
     ([exampleUrl, ''https://example.com/broken.xml'', ''https://example.com/empty.xml'',
       ''https://example.com/feed.xml''], Inr feedWorldResult) \<and>
   usedMethod feedWorldResult = RssAutoDetect \<and>
   length (articles feedWorldResult) \<le> 50 \<and>
   distinct (map url (articles feedWorldResult)) \<and>
   fetchHtml feedWorld exampleUrl = Inr exampleHtml \<and>
   pickExtractor (feedExtractorLib feedWorld) = Some exampleExtractor \<and>
   detectFeedLinks feedWorld (load feedWorld exampleHtml) exampleUrl ! 2 =
     ''https://example.com/feed.xml'' \<and>
   exampleExtractor ''https://example.com/feed.xml'' =
     ExtractorObject \<lparr> x_title = Some ''Example Feed'', x_description = None,
                       x_entries = Some exampleEntries, x_items = None \<rparr> \<and>
   List.map_filter (parseExtractorEntry feedWorld)
     (rawEntriesOf \<lparr> x_title = Some ''Example Feed'', x_description = None,
                     x_entries = Some exampleEntries, x_items = None \<rparr>) =
     [alphaArticle, betaArticle, alphaAgain] \<and>
   url alphaAgain = url alphaArticle \<and>
   articles feedWorldResult = take 50 (firstWins [alphaArticle, betaArticle, alphaAgain]) \<and>
   articles feedWorldResult = [alphaArticle, betaArticle] \<and>
   extractFeed pageWorld exampleUrl = ([exampleUrl], Inr pageWorldResult) \<and>
   usedMethod pageWorldResult = Heuristic \<and>
   length (articles pageWorldResult) \<le> 50 \<and>
   distinct (map url (articles pageWorldResult)) \<and>
   containerLoop pageWorld exampleUrl [] (containerElements (load pageWorld exampleHtml)) =
     [sponsoredPost, realNews, sponsoredPost] \<and>
   articles pageWorldResult = take 50 (firstWins [sponsoredPost, realNews, sponsoredPost]) \<and>
   articles pageWorldResult = [sponsoredPost, realNews]"
proof -
  note f = extractFeed_unique_capped [OF feedWorld_extractFeed]
  note p = extractFeed_unique_capped [OF pageWorld_extractFeed]
  have lf: "length (articles feedWorldResult) \<le> 50" using f by (rule conjunct1)
  have df: "distinct (map url (articles feedWorldResult))"
    using f by (elim conjE)
  have lp: "length (articles pageWorldResult) \<le> 50" using p by (rule conjunct1)
  have dp: "distinct (map url (articles pageWorldResult))"
    using p by (elim conjE)
  have mf: "usedMethod feedWorldResult = RssAutoDetect" by (simp add: feedWorldResult_def)
  have mp: "usedMethod pageWorldResult = Heuristic" by (simp add: pageWorldResult_def)
  have af: "articles feedWorldResult = [alphaArticle, betaArticle]"
    by (simp add: feedWorldResult_def)
  have ap: "articles pageWorldResult = [sponsoredPost, realNews]"
    by (simp add: pageWorldResult_def)
  show ?thesis
    by (intro conjI feedWorld_extractFeed pageWorld_extractFeed mf mp lf df lp dp
        feedWorld_candidates(1) feedWorld_pickExtractor feedWorld_candidates(2)
        feedWorld_candidates(5) feedWorld_candidates(6) feedWorld_candidates(9)
        pageWorld_candidates(1) af ap)
       (simp_all only: af ap feedWorld_candidates(7) pageWorld_candidates(2))
qed

text \<open>
  C2, on the code as it is. The \<open>generate-feed\<close> handler loads the rules stored for the
  source and passes them to \<open>extractFeed\<close>, which takes the URL only: with a stored rule
  that excludes titles containing \<open>sponsored\<close>, the result still lists the sponsored
  article, where the rule engine applied to the same list would leave one article.
\<close>

theorem generateFeedHandler_rules_not_applied:
  "generateFeedHandler pageWorld storedSponsoredRules (Some (''  '' @ exampleUrl)) =
     ([exampleUrl], Success pageWorldResult) \<and>
   storedSponsoredRules exampleUrl = Inr (Some [(''titleExcludes'', JArr [JStr ''sponsored''])]) \<and>
   map title (articles pageWorldResult) = [''A Sponsored Post'', ''Real news''] \<and>
   map ra_title (keptArticles
     (applySourceRules (map asRuleApplicable (articles pageWorldResult)) sponsoredRules)) =
   [Some ''Real news'']"
  using pageWorld_handler sponsored_filtered
  by (simp add: storedSponsoredRules_def sponsoredRules_def pageWorldResult_def
      sponsoredPost_def realNews_def)

text \<open>
  C6. \<open>extractFeed\<close> fails with \<open>InvalidUrlError\<close>, having made no request, when the
  input is not a well-formed http or https URL. When the page is fetched, a fetch
  failure is the result; when discovery returns none and both strategies find nothing
  it fails with \<open>ExtractionError\<close>; and when discovery returns a feed or a strategy
  finds an article it returns a \<open>FeedResult\<close>.
\<close>

theorem extractFeed_outcomes:
  "(\<not> isHttpUrl env u \<longrightarrow> extractFeed env u = ([], Inl InvalidUrlError)) \<and>
   (isHttpUrl env u \<and> fetchHtml env u = Inl e \<longrightarrow> extractFeed env u = ([u], Inl e)) \<and>
   (isHttpUrl env u \<and> fetchHtml env u = Inr html \<and>
    snd (tryAutoDetectFeeds env u html) = None \<and>
    extractFromContainers env (load env html) u = [] \<and>
    extractFromLinksByPattern env (load env html) u = []
      \<longrightarrow> snd (extractFeed env u) = Inl ExtractionError) \<and>
   (isHttpUrl env u \<and> fetchHtml env u = Inr html \<and>
    (snd (tryAutoDetectFeeds env u html) \<noteq> None \<or>
     extractFromContainers env (load env html) u \<noteq> [] \<or>
     extractFromLinksByPattern env (load env html) u \<noteq> [])
      \<longrightarrow> (\<exists>r. snd (extractFeed env u) = Inr r))"
proof (intro conjI impI)
  assume "\<not> isHttpUrl env u"
  then show "extractFeed env u = ([], Inl InvalidUrlError)" by (simp add: extractFeed_def)
next
  assume a: "isHttpUrl env u \<and> fetchHtml env u = Inl e"
  then obtain p where "parseUrl env u = Some p"
    "protocol p = ''http:'' \<or> protocol p = ''https:''"
    using isHttpUrl_parse by blast
  with a show "extractFeed env u = ([u], Inl e)" by (auto simp: extractFeed_def)
next
  assume a: "isHttpUrl env u \<and> fetchHtml env u = Inr html \<and>
    snd (tryAutoDetectFeeds env u html) = None \<and>
    extractFromContainers env (load env html) u = [] \<and>
    extractFromLinksByPattern env (load env html) u = []"
  then obtain p where p: "parseUrl env u = Some p"
    "protocol p = ''http:'' \<or> protocol p = ''https:''"
    using isHttpUrl_parse by blast
  from a p have "extractHeuristically env u html = Inl ExtractionError"
    by (intro extractHeuristically_fails) simp_all
  with a p show "snd (extractFeed env u) = Inl ExtractionError"
    by (cases "tryAutoDetectFeeds env u html") (auto simp: extractFeed_def)
next
  assume a: "isHttpUrl env u \<and> fetchHtml env u = Inr html \<and>
    (snd (tryAutoDetectFeeds env u html) \<noteq> None \<or>
     extractFromContainers env (load env html) u \<noteq> [] \<or>
     extractFromLinksByPattern env (load env html) u \<noteq> [])"
  then obtain p where p: "parseUrl env u = Some p"
    "protocol p = ''http:'' \<or> protocol p = ''https:''"
    using isHttpUrl_parse by blast
  then have pu: "parseUrl env u \<noteq> None" by simp
  obtain probed found where t: "tryAutoDetectFeeds env u html = (probed, found)"
    by (cases "tryAutoDetectFeeds env u html")
  show "\<exists>r. snd (extractFeed env u) = Inr r"
  proof (cases found)
    case (Some feed)
    from feedResultOf_succeeds[OF pu, of feed RssAutoDetect] obtain r where
      "feedResultOf env u feed RssAutoDetect = Inr r" by blast
    with a p t Some show ?thesis by (auto simp: extractFeed_def)
  next
    case None
    with a t have "extractFromContainers env (load env html) u \<noteq> [] \<or>
        extractFromLinksByPattern env (load env html) u \<noteq> []" by simp
    from extractHeuristically_succeeds[OF pu this] obtain feed where
      e: "extractHeuristically env u html = Inr feed" by blast
    from feedResultOf_succeeds[OF pu, of feed Heuristic] obtain r where
      "feedResultOf env u feed Heuristic = Inr r" by blast
    with a p t None e show ?thesis by (auto simp: extractFeed_def)
  qed
qed

theorem extractFeed_outcomes_witness:
  "\<not> isHttpUrl feedWorld ''ftp://example.com/'' \<and>
   extractFeed feedWorld ''ftp://example.com/'' = ([], Inl InvalidUrlError) \<and>
   \<not> isHttpUrl feedWorld ''nonsense'' \<and>
   extractFeed feedWorld ''nonsense'' = ([], Inl InvalidUrlError) \<and>
   isHttpUrl emptyWorld exampleUrl \<and> fetchHtml emptyWorld exampleUrl = Inr exampleHtml \<and>
   snd (extractFeed emptyWorld exampleUrl) = Inl ExtractionError \<and>
   isHttpUrl pageWorld exampleUrl \<and> fetchHtml pageWorld exampleUrl = Inr exampleHtml \<and>
   extractFromContainers pageWorld (load pageWorld exampleHtml) exampleUrl \<noteq> [] \<and>
   (\<exists>r. snd (extractFeed pageWorld exampleUrl) = Inr r)"
  using extractFeed_outcomes [of feedWorld "''ftp://example.com/''"]
    extractFeed_outcomes [of feedWorld "''nonsense''"]
    extractFeed_outcomes [of emptyWorld exampleUrl _ exampleHtml]
    extractFeed_outcomes [of pageWorld exampleUrl _ exampleHtml]
    feedWorld_facts emptyWorld_facts pageWorld_facts
  by simp

text \<open>
  C7. In \<open>extractHeuristically\<close>, when the containers yield two articles or more their
  list is the result, whatever the anchors of the page are; when they yield fewer, the
  result is the deduplication of the container articles followed by the link articles:
  the container articles come first, a link article is there only if no container
  article has its URL, and the list has distinct URLs and at most \<open>MAX_ARTICLES\<close>
  elements.
\<close>

theorem extractHeuristically_strategy_order:
  assumes "extractHeuristically env src html = Inr feed"
  shows
    "(length (extractFromContainers env (load env html) src) \<ge> 2 \<longrightarrow>
        nf_articles feed = extractFromContainers env (load env html) src \<and>
        (\<forall>anchors. extractHeuristically
           (env\<lparr>load := (\<lambda>h. (load env h)\<lparr>anchorElements := anchors\<rparr>)\<rparr>) src html =
           Inr feed)) \<and>
     (length (extractFromContainers env (load env html) src) < 2 \<longrightarrow>
        nf_articles feed =
          uniqueArticles (extractFromContainers env (load env html) src @
                          extractFromLinksByPattern env (load env html) src) \<and>
        prefix (extractFromContainers env (load env html) src) (nf_articles feed) \<and>
        (\<forall>a \<in> set (nf_articles feed).
           a \<in> set (extractFromContainers env (load env html) src) \<or>
           (a \<in> set (extractFromLinksByPattern env (load env html) src) \<and>
            url a \<notin> url ` set (extractFromContainers env (load env html) src)))) \<and>
     distinct (map url (nf_articles feed)) \<and>
     length (nf_articles feed) \<le> MAX_ARTICLES"
proof -
  let ?A = "extractFromContainers env (load env html) src"
  let ?B = "extractFromLinksByPattern env (load env html) src"
  note f = extractHeuristically_found[OF assms]
  have dA: "distinct (map url ?A)" by (rule distinct_extractFromContainers)
  have lA: "length ?A \<le> MAX_ARTICLES" by (rule length_extractFromContainers)
  show ?thesis
  proof (cases "2 \<le> length ?A")
    case True
    then have 1: "nf_articles feed = ?A" using f by simp
    have 2: "\<forall>anchors. extractHeuristically
           (env\<lparr>load := (\<lambda>h. (load env h)\<lparr>anchorElements := anchors\<rparr>)\<rparr>) src html =
           Inr feed"
      using extractHeuristically_ignores_anchors[OF True] assms by simp
    from True 1 2 dA lA show ?thesis by simp
  next
    case False
    then have 1: "nf_articles feed = uniqueArticles (?A @ ?B)" using f by simp
    have 2: "prefix ?A (uniqueArticles (?A @ ?B))"
      using dA lA by (rule uniqueArticles_prefix)
    have 3: "\<forall>a \<in> set (uniqueArticles (?A @ ?B)).
        a \<in> set ?A \<or> (a \<in> set ?B \<and> url a \<notin> url ` set ?A)"
      using uniqueArticles_append_members[OF dA] by blast
    from False 1 2 3 show ?thesis
      by (simp add: distinct_uniqueArticles length_uniqueArticles)
  qed
qed

theorem extractHeuristically_strategy_order_witness:
  "extractHeuristically mixedWorld exampleUrl exampleHtml = Inr mixedWorldFeed \<and>
   extractFromContainers mixedWorld (load mixedWorld exampleHtml) exampleUrl = [nuStory] \<and>
   extractFromLinksByPattern mixedWorld (load mixedWorld exampleHtml) exampleUrl =
     [nuStoryAgain, gammaArticle] \<and>
   nf_articles mixedWorldFeed = uniqueArticles ([nuStory] @ [nuStoryAgain, gammaArticle]) \<and>
   nf_articles mixedWorldFeed = [nuStory, gammaArticle] \<and>
   prefix [nuStory] (nf_articles mixedWorldFeed) \<and>
   distinct (map url (nf_articles mixedWorldFeed)) \<and>
   length (nf_articles mixedWorldFeed) \<le> MAX_ARTICLES"
proof -
  have u: "uniqueArticles [nuStory, nuStoryAgain, gammaArticle] = [nuStory, gammaArticle]"
    by code_simp
  have a: "nf_articles mixedWorldFeed = [nuStory, gammaArticle]"
    by (simp add: mixedWorldFeed_def)
  have d: "url nuStory \<noteq> url gammaArticle"
    by (simp add: nuStory_def gammaArticle_def)
  show ?thesis
    using extractHeuristically_strategy_order [OF mixedWorld_extractHeuristically]
      mixedWorld_extractHeuristically mixedWorld_containers mixedWorld_links
    by (simp add: a u d MAX_ARTICLES_def)
qed

text \<open>
  C8. For a source URL that parses, \<open>tryAutoDetectFeeds\<close> returns none exactly when there
  is no extractor, no feed link, or no usable candidate among the feed links. When it
  returns a feed, that feed comes from the first usable candidate in their order: its
  articles are the normalized entries of what the extractor returned for it, and the
  candidates handed to the extractor are those up to it.
\<close>

theorem tryAutoDetectFeeds_first_usable:
  assumes "parseUrl env src \<noteq> None"
  shows
    "(snd (tryAutoDetectFeeds env src html) = None \<longleftrightarrow>
        pickExtractor (feedExtractorLib env) = None \<or>
        detectFeedLinks env (load env html) src = [] \<or>
        (\<forall>l \<in> set (detectFeedLinks env (load env html) src). \<not> usableCandidate env l)) \<and>
     (\<forall>feed. snd (tryAutoDetectFeeds env src html) = Some feed \<longrightarrow>
        (\<exists>i < length (detectFeedLinks env (load env html) src). \<exists>extractor extracted.
           usableCandidate env (detectFeedLinks env (load env html) src ! i) \<and>
           (\<forall>j < i. \<not> usableCandidate env (detectFeedLinks env (load env html) src ! j)) \<and>
           pickExtractor (feedExtractorLib env) = Some extractor \<and>
           extractor (detectFeedLinks env (load env html) src ! i) =
             ExtractorObject extracted \<and>
           nf_articles feed = normalizedEntriesOf env extracted \<and>
           fst (tryAutoDetectFeeds env src html) =
             take (Suc i) (detectFeedLinks env (load env html) src)))"
proof (cases "pickExtractor (feedExtractorLib env)")
  case None
  then show ?thesis by (simp add: tryAutoDetectFeeds_def usableCandidate_def)
next
  case (Some extractor)
  let ?doc = "load env html"
  let ?links = "detectFeedLinks env ?doc src"
  note us = tryFeedLink_usable[OF assms Some, of ?doc]
  have us': "\<And>l. tryFeedLink env ?doc src extractor l = None \<longleftrightarrow> \<not> usableCandidate env l"
    using us by blast
  show ?thesis
  proof (cases "?links = []")
    case True
    with Some show ?thesis by (simp add: tryAutoDetectFeeds_def)
  next
    case False
    with Some have t: "tryAutoDetectFeeds env src html =
        tryFeedLinks env ?doc src extractor ?links"
      by (simp add: tryAutoDetectFeeds_def Let_def)
    have n: "snd (tryAutoDetectFeeds env src html) = None \<longleftrightarrow>
        (\<forall>l \<in> set ?links. \<not> usableCandidate env l)"
      unfolding t tryFeedLinks_None by (simp add: us')
    have s: "\<forall>feed. snd (tryAutoDetectFeeds env src html) = Some feed \<longrightarrow>
        (\<exists>i < length ?links. \<exists>extractor extracted.
           usableCandidate env (?links ! i) \<and>
           (\<forall>j < i. \<not> usableCandidate env (?links ! j)) \<and>
           pickExtractor (feedExtractorLib env) = Some extractor \<and>
           extractor (?links ! i) = ExtractorObject extracted \<and>
           nf_articles feed = normalizedEntriesOf env extracted \<and>
           fst (tryAutoDetectFeeds env src html) = take (Suc i) ?links)"
    proof (intro allI impI)
      fix feed assume "snd (tryAutoDetectFeeds env src html) = Some feed"
      then have "snd (tryFeedLinks env ?doc src extractor ?links) = Some feed"
        by (simp add: t)
      from tryFeedLinks_first[OF this] obtain i where i: "i < length ?links"
        "tryFeedLink env ?doc src extractor (?links ! i) = Some feed"
        "\<forall>j < i. tryFeedLink env ?doc src extractor (?links ! j) = None"
        "fst (tryFeedLinks env ?doc src extractor ?links) = take (Suc i) ?links"
        by blast
      from tryFeedLink_Some[OF i(2)] obtain extracted where
        x: "extractor (?links ! i) = ExtractorObject extracted"
           "nf_articles feed = normalizedEntriesOf env extracted" by blast
      have u: "usableCandidate env (?links ! i)" using us'[of "?links ! i"] i(2) by simp
      have v: "\<forall>j < i. \<not> usableCandidate env (?links ! j)"
      proof (intro allI impI)
        fix j assume "j < i"
        with i(3) have "tryFeedLink env ?doc src extractor (?links ! j) = None" by simp
        then show "\<not> usableCandidate env (?links ! j)" using us'[of "?links ! j"] by simp
      qed
      from i(1) u v Some x i(4) show "\<exists>i < length ?links. \<exists>extractor extracted.
           usableCandidate env (?links ! i) \<and>
           (\<forall>j < i. \<not> usableCandidate env (?links ! j)) \<and>
           pickExtractor (feedExtractorLib env) = Some extractor \<and>
           extractor (?links ! i) = ExtractorObject extracted \<and>
           nf_articles feed = normalizedEntriesOf env extracted \<and>
           fst (tryAutoDetectFeeds env src html) = take (Suc i) ?links"
        unfolding t by blast
    qed
    from n s False Some show ?thesis by simp
  qed
qed

theorem tryAutoDetectFeeds_first_usable_witness:
  "parseUrl feedWorld exampleUrl \<noteq> None \<and>
   detectFeedLinks feedWorld (load feedWorld exampleHtml) exampleUrl =
     [''https://example.com/broken.xml'', ''https://example.com/empty.xml'',
      ''https://example.com/feed.xml'', ''https://example.com/later.xml''] \<and>
   snd (tryAutoDetectFeeds feedWorld exampleUrl exampleHtml) \<noteq> None \<and>
   (\<exists>l \<in> set (detectFeedLinks feedWorld (load feedWorld exampleHtml) exampleUrl).
      usableCandidate feedWorld l) \<and>
   (\<exists>i < 4. fst (tryAutoDetectFeeds feedWorld exampleUrl exampleHtml) =
      take (Suc i) (detectFeedLinks feedWorld (load feedWorld exampleHtml) exampleUrl))"
proof -
  note t = tryAutoDetectFeeds_first_usable [OF feedWorld_facts(1), of exampleHtml]
  have s: "snd (tryAutoDetectFeeds feedWorld exampleUrl exampleHtml) =
      Some \<lparr> nf_title = ''Example Feed'', nf_description = ''An example site'',
             nf_articles = [alphaArticle, betaArticle] \<rparr>"
    by (simp add: feedWorld_facts(5))
  have l: "length (detectFeedLinks feedWorld (load feedWorld exampleHtml) exampleUrl) = 4"
    by (simp add: feedWorld_facts(4))
  from t s have "\<exists>l \<in> set (detectFeedLinks feedWorld (load feedWorld exampleHtml) exampleUrl).
      usableCandidate feedWorld l" by auto
  moreover from t s l have "\<exists>i < 4. fst (tryAutoDetectFeeds feedWorld exampleUrl exampleHtml) =
      take (Suc i) (detectFeedLinks feedWorld (load feedWorld exampleHtml) exampleUrl)"
    by metis
  ultimately show ?thesis using feedWorld_facts(1) feedWorld_facts(4) s by simp
qed

text \<open>
  C9. The feed that \<open>generateRssXml\<close> hands to the serialiser has one item per article, in
  order. The identifier and the link of an item are the URL of its article, its title
  the title, its description the description or the empty string, its date the parsed
  timestamp or, when the timestamp is missing, empty or unparsable, a reading of the
  clock made during the call, and its author list is the one named author when the
  article has one.
\<close>

theorem generateRssFeed_items:
  assumes "generateRssFeed env src ttl desc xs = Inr feed"
  shows "generateRssXml env src ttl desc xs = Inr (rss2 env feed) \<and>
    length (feedItems feed) = length xs \<and>
    (\<forall>i < length xs.
       itemId (feedItems feed ! i) = url (xs ! i) \<and>
       itemLink (feedItems feed ! i) = url (xs ! i) \<and>
       itemTitle (feedItems feed ! i) = title (xs ! i) \<and>
       itemDescription (feedItems feed ! i) =
         (case description (xs ! i) of None \<Rightarrow> [] | Some d \<Rightarrow> d) \<and>
       (case truthy (publishedAt (xs ! i)) of
          None \<Rightarrow> (\<exists>k \<ge> 2. itemDate (feedItems feed ! i) = now env k)
        | Some p \<Rightarrow>
            (case parseDate env p of
               Some t \<Rightarrow> itemDate (feedItems feed ! i) = t
             | None \<Rightarrow> (\<exists>k \<ge> 2. itemDate (feedItems feed ! i) = now env k))) \<and>
       itemAuthor (feedItems feed ! i) =
         (case truthy (author (xs ! i)) of None \<Rightarrow> None | Some w \<Rightarrow> Some [\<lparr> name = w \<rparr>]))"
proof -
  from assms have items: "feedItems feed = addItems env 2 xs"
    by (auto simp: generateRssFeed_def split: option.splits)
  have x: "generateRssXml env src ttl desc xs = Inr (rss2 env feed)"
    using assms by (simp add: generateRssXml_def)
  have len: "length (feedItems feed) = length xs" by (simp add: items length_addItems)
  have each: "\<forall>i < length xs.
       itemId (feedItems feed ! i) = url (xs ! i) \<and>
       itemLink (feedItems feed ! i) = url (xs ! i) \<and>
       itemTitle (feedItems feed ! i) = title (xs ! i) \<and>
       itemDescription (feedItems feed ! i) =
         (case description (xs ! i) of None \<Rightarrow> [] | Some d \<Rightarrow> d) \<and>
       (case truthy (publishedAt (xs ! i)) of
          None \<Rightarrow> (\<exists>k \<ge> 2. itemDate (feedItems feed ! i) = now env k)
        | Some p \<Rightarrow>
            (case parseDate env p of
               Some t \<Rightarrow> itemDate (feedItems feed ! i) = t
             | None \<Rightarrow> (\<exists>k \<ge> 2. itemDate (feedItems feed ! i) = now env k))) \<and>
       itemAuthor (feedItems feed ! i) =
         (case truthy (author (xs ! i)) of None \<Rightarrow> None | Some w \<Rightarrow> Some [\<lparr> name = w \<rparr>])"
  proof (intro allI impI)
    fix i assume "i < length xs"
    from addItems_nth[OF this, of 2 env] obtain m where m: "m \<ge> 2"
      "feedItems feed ! i = fst (articleItem env m (xs ! i))"
      by (auto simp: items)
    have d: "(case truthy (publishedAt (xs ! i)) of
          None \<Rightarrow> (\<exists>k \<ge> 2. itemDate (fst (articleItem env m (xs ! i))) = now env k)
        | Some p \<Rightarrow>
            (case parseDate env p of
               Some t \<Rightarrow> itemDate (fst (articleItem env m (xs ! i))) = t
             | None \<Rightarrow> (\<exists>k \<ge> 2. itemDate (fst (articleItem env m (xs ! i))) = now env k)))"
      using articleItem_date[where a="xs ! i" and n=m and env=env] m(1)
      by (auto split: option.splits intro: order_trans)
    show "itemId (feedItems feed ! i) = url (xs ! i) \<and>
       itemLink (feedItems feed ! i) = url (xs ! i) \<and>
       itemTitle (feedItems feed ! i) = title (xs ! i) \<and>
       itemDescription (feedItems feed ! i) =
         (case description (xs ! i) of None \<Rightarrow> [] | Some d \<Rightarrow> d) \<and>
       (case truthy (publishedAt (xs ! i)) of
          None \<Rightarrow> (\<exists>k \<ge> 2. itemDate (feedItems feed ! i) = now env k)
        | Some p \<Rightarrow>
            (case parseDate env p of
               Some t \<Rightarrow> itemDate (feedItems feed ! i) = t
             | None \<Rightarrow> (\<exists>k \<ge> 2. itemDate (feedItems feed ! i) = now env k))) \<and>
       itemAuthor (feedItems feed ! i) =
         (case truthy (author (xs ! i)) of None \<Rightarrow> None | Some w \<Rightarrow> Some [\<lparr> name = w \<rparr>])"
      unfolding m(2) using articleItem_fields[where a="xs ! i" and n=m and env=env] d by simp
  qed
  from x len each show ?thesis by simp
qed

theorem generateRssFeed_items_witness:
  "generateRssFeed pageWorld exampleUrl ''Example Site''
     ''Example Site (auto-generated feed)'' [sponsoredPost, realNews] = Inr pageFeed \<and>
   length (feedItems pageFeed) = 2 \<and>
   itemLink (feedItems pageFeed ! 0) = url sponsoredPost \<and>
   itemId (feedItems pageFeed ! 1) = url realNews \<and>
   itemDescription (feedItems pageFeed ! 1) = [] \<and>
   itemAuthor (feedItems pageFeed ! 1) = Some [\<lparr> name = ''Bob'' \<rparr>] \<and>
   itemAuthor (feedItems pageFeed ! 0) = None \<and>
   itemDate (feedItems pageFeed ! 1) = 1704067200000 \<and>
   itemDate (feedItems pageFeed ! 0) = now pageWorld 2"
proof -
  have n: "now pageWorld 2 = 1750000000002" by (simp add: pageWorld_def feedWorld_def)
  show ?thesis
    using generateRssFeed_items [OF pageWorld_generateRssFeed] pageWorld_generateRssFeed n
    by (simp add: pageFeed_def sponsoredPost_def realNews_def)
qed

end
